theory Spec2Isabelle
  imports Main "HOL-Library.AList" "HOL-Library.Sublist"
begin

section \<open>JavaScript values, strings and objects\<close>

text \<open>
  Strings are lists of characters whose code units lie in the Latin-1 range (0..255); on that
  range \<open>trim\<close> and \<open>toLowerCase\<close> below are the JavaScript built-ins. Numbers that the
  client handles are row and column indices and numeric identifiers, modelled as integers.
\<close>

datatype jsvalue = JUndefined | JNull | JBool bool | JNum int | JStr string

type_synonym js_object = "(string \<times> jsvalue) list"

text \<open>
  An object is the list of its own properties in insertion order. Reading a missing property
  gives \<open>undefined\<close>. Assigning a string or a boolean to the property \<open>__proto__\<close> of an object
  literal creates no own property (the inherited setter ignores primitives); every other
  assignment replaces the value in place or appends a new property.
\<close>

definition getProp :: "js_object \<Rightarrow> string \<Rightarrow> jsvalue" where
  "getProp obj k = (case map_of obj k of None \<Rightarrow> JUndefined | Some v \<Rightarrow> v)"

definition setProp :: "js_object \<Rightarrow> string \<Rightarrow> jsvalue \<Rightarrow> js_object" where
  "setProp obj k v = (if k = ''__proto__'' then obj else AList.update k v obj)"

definition digitChar :: "nat \<Rightarrow> char" where
  "digitChar d = char_of (48 + d)"

fun toDecimal :: "nat \<Rightarrow> string" where
  "toDecimal n = (if n < 10 then [digitChar n] else toDecimal (n div 10) @ [digitChar (n mod 10)])"

declare toDecimal.simps [simp del]

text \<open>The text a template literal gives for an integer-valued number.\<close>

definition numberToString :: "int \<Rightarrow> string" where
  "numberToString i = (if i < 0 then CHR ''-'' # toDecimal (nat (- i)) else toDecimal (nat i))"

definition isWhitespace :: "char \<Rightarrow> bool" where
  "isWhitespace c = (of_char c \<in> {9, 10, 11, 12, 13, 32, 160 :: nat})"

definition trim :: "string \<Rightarrow> string" where
  "trim s = rev (dropWhile isWhitespace (rev (dropWhile isWhitespace s)))"

definition toLowerCaseChar :: "char \<Rightarrow> char" where
  "toLowerCaseChar c =
     (let n = of_char c :: nat
      in if (65 \<le> n \<and> n \<le> 90) \<or> (192 \<le> n \<and> n \<le> 222 \<and> n \<noteq> 215)
         then char_of (n + 32) else c)"

definition toLowerCase :: "string \<Rightarrow> string" where
  "toLowerCase s = map toLowerCaseChar s"

text \<open>\<open>String.prototype.includes\<close>: the argument occurs as a contiguous substring.\<close>

fun str_includes :: "string \<Rightarrow> string \<Rightarrow> bool" where
  "str_includes [] sub = (sub = [])"
| "str_includes (x # xs) sub = (prefix sub (x # xs) \<or> str_includes xs sub)"

text \<open>\<open>Array.prototype.findIndex\<close> and \<open>indexOf\<close>: the first matching index, or -1.\<close>

fun findIndex :: "('a \<Rightarrow> bool) \<Rightarrow> 'a list \<Rightarrow> int" where
  "findIndex P [] = - 1"
| "findIndex P (x # xs) =
     (if P x then 0 else (let i = findIndex P xs in if i = - 1 then - 1 else i + 1))"

definition indexOf :: "'a list \<Rightarrow> 'a \<Rightarrow> int" where
  "indexOf xs x = findIndex (\<lambda>y. y = x) xs"


section \<open>Types of the client (\<open>types\<close>)\<close>

record sheet_config =
  apiBaseUrl :: string
  apiKey :: string
  sheetId :: string
  headers :: "string list"
  dataTypes :: "string \<rightharpoonup> string"

datatype row_identifier = IdStr string | IdNum int

fun idValue :: "row_identifier \<Rightarrow> jsvalue" where
  "idValue (IdStr s) = JStr s"
| "idValue (IdNum n) = JNum n"

fun idText :: "row_identifier \<Rightarrow> string" where
  "idText (IdStr s) = s"
| "idText (IdNum n) = numberToString n"

text \<open>\<open>oldValue = JUndefined\<close> stands for an update operation without the optional field.\<close>

record update_operation =
  op_identifier :: row_identifier
  field :: string
  newValue :: jsvalue
  oldValue :: jsvalue

text \<open>
  \<open>ApiResponse<T>\<close>. The \<open>timestamp\<close> field holds the instant (milliseconds since the
  epoch) that \<open>new Date().toISOString()\<close> renders; the rendering itself is not modelled.
\<close>

record 'a api_response =
  success :: bool
  data :: "'a option"
  error :: "string option"
  message :: "string option"
  timestamp :: "int option"


section \<open>SheetClient: pure helpers\<close>

function numberToColumnLetterLoop :: "int \<Rightarrow> string \<Rightarrow> string" where
  "numberToColumnLetterLoop num result =
     (if num \<ge> 0
      then numberToColumnLetterLoop (num div 26 - 1) (char_of (65 + num mod 26) # result)
      else result)"
  by pat_completeness auto
termination
  by (relation "measure (\<lambda>(num, result). nat (num + 1))") auto

declare numberToColumnLetterLoop.simps [simp del]

definition numberToColumnLetter :: "int \<Rightarrow> string" where
  "numberToColumnLetter num = numberToColumnLetterLoop num []"

definition getA1Notation :: "int \<Rightarrow> int \<Rightarrow> string" where
  "getA1Notation row col = (let colLetter = numberToColumnLetter col in colLetter @ numberToString row)"

definition isBooleanColumn :: "string \<Rightarrow> string \<Rightarrow> bool" where
  "isBooleanColumn columnName v =
     (let booleanColumnNames = [''done'', ''completed'', ''finished'', ''active'', ''visited''];
          booleanValues = [''true'', ''false'', ''yes'', ''no'', ''y'', ''n'', ''1'', ''0'',
                           ''done'', ''completed'']
      in list_ex (\<lambda>name. str_includes columnName name) booleanColumnNames
         \<or> v \<in> set booleanValues)"

definition convertToBoolean :: "string \<Rightarrow> bool" where
  "convertToBoolean v =
     (let truthyValues = [''true'', ''yes'', ''y'', ''1'', ''done'', ''completed'', ''active'',
                          ''visited'']
      in v \<in> set truthyValues)"

definition smartTypeConversion :: "string \<Rightarrow> string \<Rightarrow> jsvalue" where
  "smartTypeConversion v columnName =
     (if v = [] \<or> trim v = [] then JStr []
      else let trimmedValue = trim v;
               lowerColumnName = toLowerCase columnName;
               lowerValue = toLowerCase trimmedValue
           in if isBooleanColumn lowerColumnName lowerValue
              then JBool (convertToBoolean lowerValue)
              else JStr trimmedValue)"

text \<open>The cell that the \<open>forEach\<close> body reads for column \<open>colIndex\<close> of a row.\<close>

definition cellValue :: "string list \<Rightarrow> nat \<Rightarrow> string" where
  "cellValue row colIndex = (if colIndex < length row then row ! colIndex else [])"

text \<open>The callback of \<open>dataRows.map\<close>: it receives the row and its 0-based index.\<close>

definition transformRow :: "string list \<Rightarrow> nat \<times> string list \<Rightarrow> js_object" where
  "transformRow effectiveHeaders ir =
     (let index = fst ir; row = snd ir;
          generated = ''row_'' @ numberToString (int index + 1);
          rowObject =
            [(''_id'', JStr (case row of [] \<Rightarrow> generated
                             | c # cs \<Rightarrow> if c = [] then generated else c)),
             (''_rowIndex'', JNum (int index + 1))]
      in foldl (\<lambda>obj ch. setProp obj (snd ch) (smartTypeConversion (cellValue row (fst ch)) (snd ch)))
           rowObject (enumerate 0 effectiveHeaders))"

definition transformRawDataToRows :: "sheet_config \<Rightarrow> string list list \<Rightarrow> js_object list" where
  "transformRawDataToRows cfg rawData =
     (case rawData of
        [] \<Rightarrow> []
      | sheetHeaders # dataRows \<Rightarrow>
          (let effectiveHeaders = (if length (headers cfg) > 0 then headers cfg else sheetHeaders)
           in map (transformRow effectiveHeaders) (enumerate 0 dataRows)))"

text \<open>\<open>row[this.config.headers[0]]\<close>: with no configured header the key is the text of \<open>undefined\<close>.\<close>

definition firstHeaderKey :: "sheet_config \<Rightarrow> string" where
  "firstHeaderKey cfg = (case headers cfg of [] \<Rightarrow> ''undefined'' | h # hs \<Rightarrow> h)"


section \<open>SheetClient: requests, cache and operations\<close>

text \<open>
  The REST service is the environment. The \<open>n\<close>-th \<open>fetch\<close> of a run takes \<open>fst (net n)\<close>
  milliseconds and ends as \<open>snd (net n)\<close>; the world records the clock and the requests sent.
  \<open>FetchRejected m\<close> is an \<open>Error\<close> with message \<open>m\<close> thrown by \<open>fetch\<close>, by
  \<open>response.json()\<close> or while reading the parsed body.
\<close>

record raw_data =
  sheet_values :: "string list list option"

record http_body =
  b_success :: bool
  b_data :: "raw_data option"
  b_error :: "string option"

datatype fetch_outcome =
    FetchRejected string
  | FetchResponse (r_ok: bool) (r_status: nat) (r_statusText: string) (r_json: http_body)

record request_body =
  a1range :: string
  cells :: "string list list"
  valueInputOption :: string

record request =
  http_method :: string
  url :: string
  body :: "request_body option"

type_synonym network = "nat \<Rightarrow> nat \<times> fetch_outcome"

record world =
  clock :: int
  sent :: "request list"

record cache_entry =
  c_data :: "js_object list"
  c_timestamp :: int

record client =
  config :: sheet_config
  cache :: "string \<rightharpoonup> cache_entry"

definition CACHE_TTL :: int where
  "CACHE_TTL = 30000"

text \<open>\<open>x || y\<close> on an optional string: an absent or empty \<open>x\<close> is falsy.\<close>

definition orElse :: "string option \<Rightarrow> string \<Rightarrow> string" where
  "orElse x y = (case x of None \<Rightarrow> y | Some s \<Rightarrow> if s = [] then y else s)"

definition makeRequest ::
  "network \<Rightarrow> client \<Rightarrow> string \<Rightarrow> string \<Rightarrow> request_body option \<Rightarrow> world
     \<Rightarrow> (string + raw_data api_response) \<times> world" where
  "makeRequest net c meth endpoint dat w =
     (let u = apiBaseUrl (config c) @ endpoint;
          answer = net (length (sent w));
          w' = w\<lparr>clock := clock w + int (fst answer),
                 sent := sent w @ [\<lparr>http_method = meth, url = u, body = dat\<rparr>]\<rparr>
      in case snd answer of
           FetchRejected m \<Rightarrow> (Inl (''API request failed: '' @ m), w')
         | FetchResponse ok status statusText result \<Rightarrow>
             if \<not> ok
             then (Inl (''API request failed: '' @
                        orElse (b_error result)
                          (''HTTP '' @ toDecimal status @ '': '' @ statusText)), w')
             else if b_success result
             then (Inr \<lparr>success = True, data = b_data result, error = None, message = None,
                        timestamp = None\<rparr>, w')
             else (Inr \<lparr>success = False, data = None, error = b_error result, message = None,
                        timestamp = None\<rparr>, w'))"

definition invalidateCache :: "client \<Rightarrow> client" where
  "invalidateCache c = c\<lparr>cache := Map.empty\<rparr>"

definition noDataMessage :: string where
  "noDataMessage = ''No data found in the specified sheet. Please check your sheet ID and ensure the sheet contains data.''"

definition client_getAllData ::
  "network \<Rightarrow> client \<times> world \<Rightarrow> (string + js_object list) \<times> client \<times> world" where
  "client_getAllData net cw =
     (let c = fst cw; w = snd cw; cacheKey = ''all_data'';
          hit = (case cache c cacheKey of
                   None \<Rightarrow> None
                 | Some cached \<Rightarrow>
                     if clock w - c_timestamp cached < CACHE_TTL then Some (c_data cached) else None)
      in case hit of
           Some rows \<Rightarrow> (Inr rows, c, w)
         | None \<Rightarrow>
            (let rq = makeRequest net c ''GET''
                        (''/sheets/'' @ sheetId (config c) @ ''/data?range=A1:Z1000'') None w;
                 w' = snd rq
             in case fst rq of
                  Inl e \<Rightarrow> (Inl e, c, w')
                | Inr response \<Rightarrow>
                    (case (case data response of None \<Rightarrow> None | Some d \<Rightarrow> sheet_values d) of
                       None \<Rightarrow> (Inl noDataMessage, c, w')
                     | Some vals \<Rightarrow>
                         if length vals = 0 then (Inl noDataMessage, c, w')
                         else (let rows = transformRawDataToRows (config c) vals;
                                   c' = c\<lparr>cache := (cache c)(cacheKey \<mapsto>
                                           \<lparr>c_data = rows, c_timestamp = clock w'\<rparr>)\<rparr>
                               in (Inr rows, c', w')))))"

definition getRowByIdMatch :: "sheet_config \<Rightarrow> row_identifier \<Rightarrow> js_object \<Rightarrow> bool" where
  "getRowByIdMatch cfg ident row =
     (getProp row ''_id'' = idValue ident \<or> getProp row (firstHeaderKey cfg) = idValue ident)"

definition getRowById ::
  "network \<Rightarrow> row_identifier \<Rightarrow> client \<times> world \<Rightarrow> (string + js_object option) \<times> client \<times> world" where
  "getRowById net ident cw =
     (let r = client_getAllData net cw
      in case fst r of
           Inl e \<Rightarrow> (Inl e, snd r)
         | Inr allData \<Rightarrow> (Inr (find (getRowByIdMatch (config (fst cw)) ident) allData), snd r))"

definition findRowMatch :: "sheet_config \<Rightarrow> row_identifier \<Rightarrow> js_object \<Rightarrow> bool" where
  "findRowMatch cfg ident row =
     (getProp row ''_id'' = idValue ident \<or> getProp row (firstHeaderKey cfg) = idValue ident \<or>
      list_ex (\<lambda>v. v = idValue ident) (map snd row))"

definition findRowByIdentifier ::
  "network \<Rightarrow> row_identifier \<Rightarrow> client \<times> world \<Rightarrow> (string + int) \<times> client \<times> world" where
  "findRowByIdentifier net ident cw =
     (let r = client_getAllData net cw
      in case fst r of
           Inl e \<Rightarrow> (Inl e, snd r)
         | Inr allData \<Rightarrow> (Inr (findIndex (findRowMatch (config (fst cw)) ident) allData), snd r))"

text \<open>
  \<open>getCellValue\<close> is only called with indices that passed the \<open>-1\<close> checks; a negative row
  index would read a property of \<open>undefined\<close>, which throws.
\<close>

definition getCellValue ::
  "network \<Rightarrow> int \<Rightarrow> int \<Rightarrow> client \<times> world \<Rightarrow> (string + jsvalue) \<times> client \<times> world" where
  "getCellValue net rowIndex columnIndex cw =
     (let r = client_getAllData net cw; hs = headers (config (fst cw))
      in case fst r of
           Inl e \<Rightarrow> (Inl e, snd r)
         | Inr allData \<Rightarrow>
             if rowIndex \<ge> int (length allData) \<or> columnIndex \<ge> int (length hs)
             then (Inr JNull, snd r)
             else if rowIndex < 0
             then (Inl ''Cannot read properties of undefined'', snd r)
             else (let header = (if columnIndex < 0 then ''undefined'' else hs ! nat columnIndex)
                   in (Inr (getProp (allData ! nat rowIndex) header), snd r)))"

definition failure :: "string \<Rightarrow> 'a api_response" where
  "failure e = \<lparr>success = False, data = None, error = Some e, message = None, timestamp = None\<rparr>"

text \<open>
  \<open>updateField\<close>. The parameter \<open>formatValue\<close> stands for the method of that name, which
  renders the new value with the number and date built-ins. Every \<open>throw\<close> inside the \<open>try\<close>
  block ends in the \<open>catch\<close> clause, which returns \<open>failure\<close> with the error's message.
\<close>

definition updateField ::
  "(jsvalue \<Rightarrow> string option \<Rightarrow> string) \<Rightarrow> network \<Rightarrow> update_operation \<Rightarrow> client \<times> world
     \<Rightarrow> raw_data api_response \<times> client \<times> world" where
  "updateField formatValue net params cw =
     (let cfg = config (fst cw);
          found = findRowByIdentifier net (op_identifier params) cw
      in case fst found of
           Inl e \<Rightarrow> (failure e, snd found)
         | Inr rowIndex \<Rightarrow>
            (let columnIndex = indexOf (headers cfg) (field params)
             in if rowIndex = - 1
                then (failure (''Row with identifier '' @ idText (op_identifier params) @ '' not found''),
                      snd found)
                else if columnIndex = - 1
                then (failure (''Field '' @ field params @ '' not found in headers''), snd found)
                else
                 (let checked =
                       (if oldValue params \<noteq> JUndefined
                        then (let cur = getCellValue net rowIndex columnIndex (snd found)
                              in case fst cur of
                                   Inl e \<Rightarrow> (Inl e, snd cur)
                                 | Inr currentValue \<Rightarrow>
                                     if currentValue \<noteq> oldValue params
                                     then (Inl ''Optimistic lock failed: value was changed by another user'',
                                           snd cur)
                                     else (Inr (), snd cur))
                        else (Inr (), snd found))
                  in case fst checked of
                       Inl e \<Rightarrow> (failure e, snd checked)
                     | Inr u \<Rightarrow>
                        (let c1 = fst (snd checked); w1 = snd (snd checked);
                             rng = getA1Notation (rowIndex + 1) columnIndex;
                             rq = makeRequest net c1 ''POST''
                                    (''/sheets/'' @ sheetId cfg @ ''/update'')
                                    (Some \<lparr>a1range = rng,
                                           cells = [[formatValue (newValue params)
                                                       (dataTypes cfg (field params))]],
                                           valueInputOption = ''USER_ENTERED''\<rparr>) w1
                         in case fst rq of
                              Inl e \<Rightarrow> (failure e, c1, snd rq)
                            | Inr response \<Rightarrow> (response, invalidateCache c1, snd rq)))))"


section \<open>SheetApi\<close>

text \<open>
  An async method either resolves (\<open>Inr\<close>) or rejects (\<open>Inl\<close>). Both methods below wrap
  their whole body in \<open>try\<close>/\<open>catch\<close>; the \<open>Inl\<close> case of the client call is the \<open>catch\<close> clause.
\<close>

definition sheetApi_getAllData ::
  "network \<Rightarrow> client \<times> world \<Rightarrow> (string + js_object list api_response) \<times> client \<times> world" where
  "sheetApi_getAllData net cw =
     (let r = client_getAllData net cw; now = clock (snd (snd r))
      in case fst r of
           Inr rows \<Rightarrow>
             if length rows = 0
             then (Inr \<lparr>success = False, data = None,
                        error = Some ''No data found in the sheet. Please ensure your Google Sheet contains data and check your configuration.'',
                        message = None, timestamp = Some now\<rparr>, snd r)
             else (Inr \<lparr>success = True, data = Some rows, error = None,
                        message = Some (''Successfully retrieved '' @ toDecimal (length rows) @
                                        '' rows from Google Sheets''),
                        timestamp = Some now\<rparr>, snd r)
         | Inl errorMessage \<Rightarrow>
             (Inr \<lparr>success = False, data = None,
                   error = Some (''Google Sheets API Error: '' @ errorMessage),
                   message = None, timestamp = Some now\<rparr>, snd r))"

definition sheetApi_getRow ::
  "network \<Rightarrow> row_identifier \<Rightarrow> client \<times> world
     \<Rightarrow> (string + js_object option api_response) \<times> client \<times> world" where
  "sheetApi_getRow net ident cw =
     (let r = getRowById net ident cw; now = clock (snd (snd r))
      in case fst r of
           Inr row \<Rightarrow>
             (Inr \<lparr>success = True, data = Some row, error = None,
                   message = Some (if row \<noteq> None then ''Row found'' else ''Row not found''),
                   timestamp = Some now\<rparr>, snd r)
         | Inl e \<Rightarrow>
             (Inr \<lparr>success = False, data = None, error = Some e, message = None,
                   timestamp = Some now\<rparr>, snd r))"


section \<open>ApiManager\<close>

text \<open>
  The manager's async methods are cut at their \<open>await\<close> points. Each piece between two
  awaits runs without interruption and is one transition of the manager; the environment
  decides when a public method is called, when a timer fires and when a request promise
  settles. A call is named by a number chosen by the environment, a request promise by the
  number it received when it was created. Every transition carries the value of \<open>Date.now()\<close>.
\<close>

datatype endpoint = GetAllData | QuickTest

fun cacheKey :: "endpoint \<Rightarrow> string" where
  "cacheKey GetAllData = ''getAllData''"
| "cacheKey QuickTest = ''quickTest''"

record conn_result =
  connected :: bool
  conn_error :: "string option"
  rowCount :: "nat option"

datatype cached_data = ApiData "js_object list api_response" | ConnData conn_result

record cached_response =
  cr_data :: cached_data
  cr_timestamp :: int
  cr_ttl :: int

record pending_request =
  promise :: nat
  pr_timestamp :: int

text \<open>How a promise returned by \<open>sheetApi.getAllData()\<close> settles.\<close>

datatype settlement = Resolved "js_object list api_response" | Rejected string

datatype call_state =
    RateLimitWait endpoint
  | RateLimitPassed endpoint
  | AwaitingOwn endpoint nat
  | AwaitingPending endpoint nat
  | Returned cached_data
  | Thrown string

text \<open>
  \<open>calls\<close> holds the activations of the two public async methods, \<open>inflight\<close> the request
  promises that were created and have not settled, \<open>nextPromise\<close> the number of promises
  created so far.
\<close>

record api_manager =
  mcache :: "string \<rightharpoonup> cached_response"
  pendingRequests :: "string \<rightharpoonup> pending_request"
  lastRequestTime :: int
  calls :: "nat \<rightharpoonup> call_state"
  inflight :: "nat \<rightharpoonup> endpoint"
  nextPromise :: nat

definition MIN_REQUEST_INTERVAL :: int where
  "MIN_REQUEST_INTERVAL = 1000"

definition DEFAULT_TTL :: int where
  "DEFAULT_TTL = 30000"

definition newApiManager :: api_manager where
  "newApiManager = \<lparr>mcache = Map.empty, pendingRequests = Map.empty, lastRequestTime = 0,
                     calls = Map.empty, inflight = Map.empty, nextPromise = 0\<rparr>"

text \<open>\<open>customTtl || cached.ttl\<close>: an absent custom TTL and the number 0 are both falsy.\<close>

definition getCachedResponse ::
  "string \<Rightarrow> int option \<Rightarrow> int \<Rightarrow> api_manager \<Rightarrow> cached_data option \<times> api_manager" where
  "getCachedResponse key customTtl now m =
     (case mcache m key of
        None \<Rightarrow> (None, m)
      | Some cached \<Rightarrow>
          (let ttl = (case customTtl of
                        None \<Rightarrow> cr_ttl cached
                      | Some t \<Rightarrow> if t = 0 then cr_ttl cached else t);
               isExpired = (now - cr_timestamp cached > ttl)
           in if isExpired then (None, m\<lparr>mcache := (mcache m)(key := None)\<rparr>)
              else (Some (cr_data cached), m)))"

definition setCacheEntry :: "string \<Rightarrow> cached_data \<Rightarrow> int \<Rightarrow> int \<Rightarrow> api_manager \<Rightarrow> api_manager" where
  "setCacheEntry key d ttl now m =
     m\<lparr>mcache := (mcache m)(key \<mapsto> \<lparr>cr_data = d, cr_timestamp = now, cr_ttl = ttl\<rparr>)\<rparr>"

definition clearCache :: "api_manager \<Rightarrow> api_manager" where
  "clearCache m = m\<lparr>mcache := Map.empty\<rparr>"

definition clearCacheEntry :: "string \<Rightarrow> api_manager \<Rightarrow> api_manager" where
  "clearCacheEntry key m = m\<lparr>mcache := (mcache m)(key := None)\<rparr>"

definition cleanup :: "int \<Rightarrow> api_manager \<Rightarrow> api_manager" where
  "cleanup now m =
     m\<lparr>mcache := (\<lambda>key. case mcache m key of
                         None \<Rightarrow> None
                       | Some cached \<Rightarrow>
                           if now - cr_timestamp cached > cr_ttl cached then None else Some cached),
       pendingRequests := (\<lambda>key. case pendingRequests m key of
                         None \<Rightarrow> None
                       | Some pending \<Rightarrow>
                           if now - pr_timestamp pending > 30000 then None else Some pending)\<rparr>"

text \<open>
  The two public methods have the same shape and differ in the cache key and in the custom
  TTL of the cache read. \<open>publicCall\<close> is their body up to the first \<open>await\<close>: the cache
  read, the look-up of a pending request, and the synchronous part of \<open>enforceRateLimit\<close>,
  which either starts a timer or sets \<open>lastRequestTime\<close> at once. In both cases
  \<open>await this.enforceRateLimit()\<close> suspends the call; the statements after it run in a later
  transition (\<open>Resume\<close>), after any code that was already running in the same tick.
\<close>

definition publicCall :: "endpoint \<Rightarrow> int option \<Rightarrow> nat \<Rightarrow> int \<Rightarrow> api_manager \<Rightarrow> api_manager" where
  "publicCall ep customTtl cid now m =
     (let key = cacheKey ep;
          rd = getCachedResponse key customTtl now m;
          m1 = snd rd
      in case fst rd of
           Some cached \<Rightarrow> m1\<lparr>calls := (calls m1)(cid \<mapsto> Returned cached)\<rparr>
         | None \<Rightarrow>
            (case pendingRequests m1 key of
               Some pending \<Rightarrow>
                 m1\<lparr>calls := (calls m1)(cid \<mapsto> AwaitingPending ep (promise pending))\<rparr>
             | None \<Rightarrow>
                 (let timeSinceLastRequest = now - lastRequestTime m1
                  in if timeSinceLastRequest < MIN_REQUEST_INTERVAL
                     then m1\<lparr>calls := (calls m1)(cid \<mapsto> RateLimitWait ep)\<rparr>
                     else m1\<lparr>lastRequestTime := now,
                             calls := (calls m1)(cid \<mapsto> RateLimitPassed ep)\<rparr>)))"

definition apiManager_getAllData :: "nat \<Rightarrow> int \<Rightarrow> api_manager \<Rightarrow> api_manager" where
  "apiManager_getAllData cid now m = publicCall GetAllData None cid now m"

definition quickConnectionTest :: "nat \<Rightarrow> int \<Rightarrow> api_manager \<Rightarrow> api_manager" where
  "quickConnectionTest cid now m = publicCall QuickTest (Some 10000) cid now m"

text \<open>The rest of \<open>enforceRateLimit\<close>, run when its timer fires.\<close>

definition enforceRateLimit_resume :: "nat \<Rightarrow> int \<Rightarrow> api_manager \<Rightarrow> api_manager" where
  "enforceRateLimit_resume cid now m =
     (case calls m cid of
        Some (RateLimitWait ep) \<Rightarrow>
          m\<lparr>lastRequestTime := now, calls := (calls m)(cid \<mapsto> RateLimitPassed ep)\<rparr>
      | _ \<Rightarrow> m)"

text \<open>
  \<open>makeNewRequest\<close> and \<open>makeQuickTestRequest\<close> up to their \<open>await\<close>: the call to
  \<open>sheetApi.getAllData()\<close> (directly, or as the first statement of \<open>performQuickTest\<close>)
  creates a request promise, which is then stored as pending under the cache key.
\<close>

definition makeNewRequest :: "nat \<Rightarrow> int \<Rightarrow> api_manager \<Rightarrow> api_manager" where
  "makeNewRequest cid now m =
     (case calls m cid of
        Some (RateLimitPassed ep) \<Rightarrow>
          (let requestPromise = nextPromise m
           in m\<lparr>inflight := (inflight m)(requestPromise \<mapsto> ep),
                nextPromise := requestPromise + 1,
                pendingRequests := (pendingRequests m)(cacheKey ep \<mapsto>
                                     \<lparr>promise = requestPromise, pr_timestamp = now\<rparr>),
                calls := (calls m)(cid \<mapsto> AwaitingOwn ep requestPromise)\<rparr>)
      | _ \<Rightarrow> m)"

definition performQuickTest :: "settlement \<Rightarrow> conn_result" where
  "performQuickTest s =
     (case s of
        Resolved result \<Rightarrow>
          (case data result of
             Some rows \<Rightarrow>
               if success result
               then \<lparr>connected = True, conn_error = None, rowCount = Some (length rows)\<rparr>
               else \<lparr>connected = False, conn_error = Some (orElse (error result) ''Unknown error''),
                     rowCount = None\<rparr>
           | None \<Rightarrow>
               \<lparr>connected = False, conn_error = Some (orElse (error result) ''Unknown error''),
                rowCount = None\<rparr>)
      | Rejected e \<Rightarrow> \<lparr>connected = False, conn_error = Some e, rowCount = None\<rparr>)"

text \<open>What a caller awaiting the promise of an endpoint receives when the request settles.\<close>

definition promiseResult :: "endpoint \<Rightarrow> settlement \<Rightarrow> call_state" where
  "promiseResult ep s =
     (case ep of
        QuickTest \<Rightarrow> Returned (ConnData (performQuickTest s))
      | GetAllData \<Rightarrow> (case s of Resolved r \<Rightarrow> Returned (ApiData r) | Rejected e \<Rightarrow> Thrown e))"

text \<open>
  The continuations that run when request promise \<open>p\<close> settles: the rest of
  \<open>makeNewRequest\<close> or \<open>makeQuickTestRequest\<close> (cache the result, delete the pending entry
  of the key), and the return of every call that awaited the promise.
\<close>

definition requestSettled :: "nat \<Rightarrow> settlement \<Rightarrow> int \<Rightarrow> api_manager \<Rightarrow> api_manager" where
  "requestSettled p s now m =
     (case inflight m p of
        None \<Rightarrow> m
      | Some ep \<Rightarrow>
          (let key = cacheKey ep;
               m1 = (case ep of
                       GetAllData \<Rightarrow>
                         (case s of
                            Resolved result \<Rightarrow>
                              if success result then setCacheEntry key (ApiData result) DEFAULT_TTL now m
                              else m
                          | Rejected e \<Rightarrow> m)
                     | QuickTest \<Rightarrow> setCacheEntry key (ConnData (performQuickTest s)) 10000 now m)
           in m1\<lparr>pendingRequests := (pendingRequests m1)(key := None),
                 inflight := (inflight m1)(p := None),
                 calls := (\<lambda>cid. case calls m1 cid of
                             Some (AwaitingOwn e q) \<Rightarrow>
                               if q = p then Some (promiseResult ep s) else Some (AwaitingOwn e q)
                           | Some (AwaitingPending e q) \<Rightarrow>
                               if q = p then Some (promiseResult ep s) else Some (AwaitingPending e q)
                           | other \<Rightarrow> other)\<rparr>))"

datatype event =
    CallGetAllData nat
  | CallQuickConnectionTest nat
  | ClearCache
  | ClearCacheEntry string
  | Cleanup
  | TimerFired nat
  | Resume nat
  | Settle nat settlement

text \<open>A call event whose number names an existing call is ignored.\<close>

fun step :: "int \<Rightarrow> event \<Rightarrow> api_manager \<Rightarrow> api_manager" where
  "step now (CallGetAllData cid) m =
     (if calls m cid = None then apiManager_getAllData cid now m else m)"
| "step now (CallQuickConnectionTest cid) m =
     (if calls m cid = None then quickConnectionTest cid now m else m)"
| "step now ClearCache m = clearCache m"
| "step now (ClearCacheEntry key) m = clearCacheEntry key m"
| "step now Cleanup m = cleanup now m"
| "step now (TimerFired cid) m = enforceRateLimit_resume cid now m"
| "step now (Resume cid) m = makeNewRequest cid now m"
| "step now (Settle p s) m = requestSettled p s now m"

fun run :: "(int \<times> event) list \<Rightarrow> api_manager \<Rightarrow> api_manager" where
  "run [] m = m"
| "run (te # rest) m = run rest (step (fst te) (snd te) m)"


section \<open>Example configurations, sheets and networks\<close>

definition exampleConfig :: sheet_config where
  "exampleConfig = \<lparr>apiBaseUrl = ''https://api.example/v1'', apiKey = ''key'', sheetId = ''s1'',
                     headers = [''Name'', ''Done''], dataTypes = Map.empty\<rparr>"

definition exampleClient :: client where
  "exampleClient = \<lparr>config = exampleConfig, cache = Map.empty\<rparr>"

definition startWorld :: world where
  "startWorld = \<lparr>clock = 1000000, sent = []\<rparr>"

definition exampleSheet :: "string list list" where
  "exampleSheet = [[''Name'', ''Done''], [''Bob'', ''yes''], [''Ann'', '' '']]"

definition sheetNetwork :: network where
  "sheetNetwork n =
     (120, FetchResponse True 200 ''OK''
             \<lparr>b_success = True, b_data = Some \<lparr>sheet_values = Some exampleSheet\<rparr>,
              b_error = None\<rparr>)"

definition offlineNetwork :: network where
  "offlineNetwork n = (30, FetchRejected ''Failed to fetch'')"

definition noFormat :: "jsvalue \<Rightarrow> string option \<Rightarrow> string" where
  "noFormat v t = (case v of JStr s \<Rightarrow> s | _ \<Rightarrow> [])"

definition missingRowUpdate :: update_operation where
  "missingRowUpdate = \<lparr>op_identifier = IdStr ''Zed'', field = ''Name'', newValue = JStr ''Zoe'',
                        oldValue = JUndefined\<rparr>"

definition missingFieldUpdate :: update_operation where
  "missingFieldUpdate = \<lparr>op_identifier = IdStr ''Bob'', field = ''Age'', newValue = JStr ''41'',
                          oldValue = JUndefined\<rparr>"

text \<open>A sheet whose columns are named like the two fixed properties of a row record.\<close>

definition collidingConfig :: sheet_config where
  "collidingConfig = \<lparr>apiBaseUrl = ''https://api.example/v1'', apiKey = ''key'', sheetId = ''s2'',
                       headers = [''Name'', ''_id'', ''_rowIndex''], dataTypes = Map.empty\<rparr>"

definition collidingSheet :: "string list list" where
  "collidingSheet = [[''Name'', ''_id'', ''_rowIndex''], [''Bob'', ''yes'', ''x'']]"

definition okResponse :: "js_object list api_response" where
  "okResponse = \<lparr>success = True,
                  data = Some (transformRawDataToRows exampleConfig exampleSheet),
                  error = None, message = Some ''Successfully retrieved 2 rows from Google Sheets'',
                  timestamp = Some 1000120\<rparr>"

definition failedResponse :: "js_object list api_response" where
  "failedResponse = \<lparr>success = False, data = None,
                      error = Some ''Google Sheets API Error: API request failed: Failed to fetch'',
                      message = None, timestamp = Some 1000030\<rparr>"


text \<open>A sheet that has a header row and no data rows.\<close>

definition headerOnlySheet :: "string list list" where
  "headerOnlySheet = [[''Name'', ''Done'']]"

definition headerOnlyNetwork :: network where
  "headerOnlyNetwork n =
     (120, FetchResponse True 200 ''OK''
             \<lparr>b_success = True, b_data = Some \<lparr>sheet_values = Some headerOnlySheet\<rparr>,
              b_error = None\<rparr>)"

text \<open>
  The configuration \<open>getSheetConfig\<close> returns when no headers are set in the environment, and
  a sheet one of whose columns is named \<open>undefined\<close>.
\<close>

definition defaultConfig :: sheet_config where
  "defaultConfig = \<lparr>apiBaseUrl = ''http://localhost:3000/api/v1'', apiKey = [], sheetId = [],
                     headers = [], dataTypes = Map.empty\<rparr>"

definition defaultClient :: client where
  "defaultClient = \<lparr>config = defaultConfig, cache = Map.empty\<rparr>"

definition undefinedColumnSheet :: "string list list" where
  "undefinedColumnSheet = [[''id'', ''undefined''], [''7'', ''x'']]"

definition undefinedColumnNetwork :: network where
  "undefinedColumnNetwork n =
     (120, FetchResponse True 200 ''OK''
             \<lparr>b_success = True, b_data = Some \<lparr>sheet_values = Some undefinedColumnSheet\<rparr>,
              b_error = None\<rparr>)"

text \<open>
  Runs of the manager. In \<open>raceTrace\<close> two components call \<open>getAllData\<close> in the same tick
  on a fresh manager: call 0 passes the rate limit at once, call 1 has to wait one second, and
  the request of call 0 has not been answered when the timer of call 1 fires.
  In \<open>expiredWhilePendingTrace\<close> the request of call 0 is answered after half a second and
  call 1 then starts its own request. In \<open>twoEndpointsTrace\<close> a data fetch and a connection
  test complete one after the other.
\<close>

definition raceTrace :: "(int \<times> event) list" where
  "raceTrace = [(1000000, CallGetAllData 0), (1000000, CallGetAllData 1), (1000000, Resume 0),
                (1001000, TimerFired 1)]"

definition expiredWhilePendingTrace :: "(int \<times> event) list" where
  "expiredWhilePendingTrace =
     [(1000000, CallGetAllData 0), (1000000, CallGetAllData 1), (1000000, Resume 0),
      (1000500, Settle 0 (Resolved okResponse)), (1001000, TimerFired 1), (1001000, Resume 1)]"

definition twoEndpointsTrace :: "(int \<times> event) list" where
  "twoEndpointsTrace =
     [(1000000, CallGetAllData 0), (1000000, Resume 0), (1000500, Settle 0 (Resolved okResponse)),
      (1002000, CallQuickConnectionTest 1), (1002000, Resume 1),
      (1002100, Settle 1 (Resolved okResponse))]"


text \<open>
  In \<open>failureAfterSuccessTrace\<close> the two requests of the race are both answered: request 1
  with the rows, then request 0 with a failure.
\<close>

definition failureAfterSuccessTrace :: "(int \<times> event) list" where
  "failureAfterSuccessTrace =
     [(1000000, CallGetAllData 0), (1000000, CallGetAllData 1), (1000000, Resume 0),
      (1001000, TimerFired 1), (1001000, Resume 1),
      (1001200, Settle 1 (Resolved okResponse)), (1001500, Settle 0 (Resolved failedResponse))]"


section \<open>Reference notions used in the statements\<close>

definition isColumnLetter :: "char \<Rightarrow> bool" where
  "isColumnLetter c = (65 \<le> (of_char c :: nat) \<and> (of_char c :: nat) \<le> 90)"

text \<open>The value of a bijective base-26 numeral over \<open>A\<close>..\<open>Z\<close>, with \<open>A\<close> the digit 1.\<close>

definition bijectiveBase26 :: "string \<Rightarrow> int" where
  "bijectiveBase26 s = foldl (\<lambda>acc c. acc * 26 + (of_char c - 64)) 0 s"

definition isDigit :: "char \<Rightarrow> bool" where
  "isDigit c = (48 \<le> (of_char c :: nat) \<and> (of_char c :: nat) \<le> 57)"

definition decimalValue :: "string \<Rightarrow> nat" where
  "decimalValue s = foldl (\<lambda>acc c. acc * 10 + (of_char c - 48)) 0 s"

text \<open>The record a data row starts as, before the header columns are assigned.\<close>

definition initialRowObject :: "nat \<Rightarrow> string list \<Rightarrow> js_object" where
  "initialRowObject i row =
     [(''_id'', JStr (if cellValue row 0 \<noteq> [] then cellValue row 0
                     else ''row_'' @ toDecimal (i + 1))),
      (''_rowIndex'', JNum (int i + 1))]"

text \<open>The event with which a public method of the manager is called.\<close>

fun callEvent :: "endpoint \<Rightarrow> nat \<Rightarrow> event" where
  "callEvent GetAllData cid = CallGetAllData cid"
| "callEvent QuickTest cid = CallQuickConnectionTest cid"

text \<open>The entry cached under the key of \<open>getAllData\<close>, if any, is a successful response.\<close>

definition getAllDataEntrySuccessful :: "api_manager \<Rightarrow> bool" where
  "getAllDataEntrySuccessful m =
     (case mcache m ''getAllData'' of
        None \<Rightarrow> True
      | Some cached \<Rightarrow> (case cr_data cached of ApiData r \<Rightarrow> success r | ConnData r \<Rightarrow> False))"

text \<open>The custom TTL with which each public method reads the cache.\<close>

fun callerTtl :: "endpoint \<Rightarrow> int option" where
  "callerTtl GetAllData = None"
| "callerTtl QuickTest = Some 10000"

text \<open>
  One public call run to its end with no other call in between, on a manager, a client and a
  world: the call's own transitions in order (waiting for the rate limit where it has to),
  with the request promise answered by \<open>SheetApi.getAllData\<close> on the client. The clock of the
  world is \<open>Date.now()\<close>.
\<close>

definition asSettlement :: "string + js_object list api_response \<Rightarrow> settlement" where
  "asSettlement r = (case r of Inl e \<Rightarrow> Rejected e | Inr resp \<Rightarrow> Resolved resp)"

definition completeCall ::
  "network \<Rightarrow> endpoint \<Rightarrow> nat \<Rightarrow> api_manager \<times> client \<times> world
     \<Rightarrow> api_manager \<times> client \<times> world" where
  "completeCall net ep cid mcw =
     (let m = fst mcw; c = fst (snd mcw); w = snd (snd mcw);
          m1 = step (clock w) (callEvent ep cid) m;
          waitTime = (case calls m1 cid of
                        Some (RateLimitWait e) \<Rightarrow>
                          MIN_REQUEST_INTERVAL - (clock w - lastRequestTime m1)
                      | _ \<Rightarrow> 0);
          w1 = w\<lparr>clock := clock w + waitTime\<rparr>;
          m2 = step (clock w1) (Resume cid) (step (clock w1) (TimerFired cid) m1)
      in case calls m2 cid of
           Some (AwaitingOwn e p) \<Rightarrow>
             (let r = sheetApi_getAllData net (c, w1)
              in (step (clock (snd (snd r))) (Settle p (asSettlement (fst r))) m2, snd r))
         | _ \<Rightarrow> (m2, c, w1))"

definition atTime :: "int \<Rightarrow> api_manager \<times> client \<times> world \<Rightarrow> api_manager \<times> client \<times> world" where
  "atTime t mcw = (fst mcw, fst (snd mcw), (snd (snd mcw))\<lparr>clock := t\<rparr>)"

section \<open>Column letters and A1 notation\<close>

lemma numberToColumnLetterLoop_unfold:
  "numberToColumnLetterLoop num res =
     (if num \<ge> 0
      then numberToColumnLetterLoop (num div 26 - 1) (char_of (65 + num mod 26) # res)
      else res)"
  by (rule numberToColumnLetterLoop.simps)

lemma numberToColumnLetterLoop_append:
  "numberToColumnLetterLoop num res = numberToColumnLetterLoop num [] @ res"
proof (induction "nat (num + 1)" arbitrary: num res rule: less_induct)
  case less
  show ?case
  proof (cases "num \<ge> 0")
    case False
    then show ?thesis by (simp add: numberToColumnLetterLoop_unfold)
  next
    case True
    let ?c = "char_of (65 + num mod 26) :: char"
    let ?m = "num div 26 - 1"
    have lt: "nat (?m + 1) < nat (num + 1)" using True by simp
    have a: "numberToColumnLetterLoop num res = numberToColumnLetterLoop ?m (?c # res)"
      using True by (subst numberToColumnLetterLoop_unfold) simp
    have b: "numberToColumnLetterLoop num [] = numberToColumnLetterLoop ?m [?c]"
      using True by (subst numberToColumnLetterLoop_unfold) simp
    have "numberToColumnLetterLoop ?m (?c # res) = numberToColumnLetterLoop ?m [] @ (?c # res)"
      using less[OF lt] .
    moreover have "numberToColumnLetterLoop ?m [?c] = numberToColumnLetterLoop ?m [] @ [?c]"
      using less[OF lt] .
    ultimately show ?thesis using a b by simp
  qed
qed

lemma numberToColumnLetter_step:
  "0 \<le> num \<Longrightarrow> numberToColumnLetter num =
     numberToColumnLetter (num div 26 - 1) @ [char_of (65 + num mod 26)]"
  unfolding numberToColumnLetter_def
  by (subst numberToColumnLetterLoop_unfold, simp, subst numberToColumnLetterLoop_append, simp)

lemma numberToColumnLetter_neg: "num < 0 \<Longrightarrow> numberToColumnLetter num = []"
  unfolding numberToColumnLetter_def by (subst numberToColumnLetterLoop_unfold) simp

lemma numberToColumnLetter_nonempty: "0 \<le> num \<Longrightarrow> numberToColumnLetter num \<noteq> []"
  by (simp add: numberToColumnLetter_step)

lemma bijectiveBase26_snoc:
  "bijectiveBase26 (s @ [c]) = bijectiveBase26 s * 26 + (of_char c - 64)"
  by (simp add: bijectiveBase26_def)

lemma of_char_letter:
  "0 \<le> (k::int) \<Longrightarrow> k < 26 \<Longrightarrow> (of_char (char_of (65 + k) :: char) :: int) = 65 + k"
  by simp

lemma isColumnLetter_char_of:
  assumes "0 \<le> (k::int)" "k < 26"
  shows "isColumnLetter (char_of (65 + k))"
proof -
  obtain n :: nat where n: "k = int n" using assms(1) by (metis nonneg_int_cases)
  have "(char_of (65 + k) :: char) = char_of (65 + n)"
    unfolding n by (metis char_of_nat of_nat_add of_nat_numeral)
  moreover have "n < 26" using assms(2) n by simp
  ultimately show ?thesis by (simp add: isColumnLetter_def)
qed

lemma numberToColumnLetter_letters: "list_all isColumnLetter (numberToColumnLetter num)"
proof (induction "nat (num + 1)" arbitrary: num rule: less_induct)
  case less
  show ?case
  proof (cases "num \<ge> 0")
    case False
    then show ?thesis by (simp add: numberToColumnLetter_neg)
  next
    case True
    have lt: "nat (num div 26 - 1 + 1) < nat (num + 1)" using True by simp
    show ?thesis
      using True less[OF lt] by (simp add: numberToColumnLetter_step isColumnLetter_char_of)
  qed
qed

lemma letter_digit_range:
  "isColumnLetter c \<Longrightarrow> 1 \<le> (of_char c :: int) - 64 \<and> (of_char c :: int) - 64 \<le> 26"
proof -
  assume "isColumnLetter c"
  then have "65 \<le> (of_char c :: nat)" "(of_char c :: nat) \<le> 90"
    by (simp_all add: isColumnLetter_def)
  then have "65 \<le> int (of_char c)" "int (of_char c) \<le> 90" by simp_all
  moreover have "int (of_char c) = (of_char c :: int)" by (simp add: of_char_def)
  ultimately show ?thesis by simp
qed

lemma bijectiveBase26_nonneg: "list_all isColumnLetter xs \<Longrightarrow> 0 \<le> bijectiveBase26 xs"
proof (induction xs rule: rev_induct)
  case Nil
  show ?case by (simp add: bijectiveBase26_def)
next
  case (snoc x xs)
  then have "0 \<le> bijectiveBase26 xs" "isColumnLetter x" by simp_all
  then show ?case using letter_digit_range[of x] by (simp add: bijectiveBase26_snoc)
qed

lemma bijectiveBase26_inj:
  "list_all isColumnLetter xs \<Longrightarrow> list_all isColumnLetter ys \<Longrightarrow>
   bijectiveBase26 xs = bijectiveBase26 ys \<Longrightarrow> xs = ys"
proof (induction xs arbitrary: ys rule: rev_induct)
  case Nil
  show ?case
  proof (cases ys rule: rev_cases)
    case Nil
    then show ?thesis by simp
  next
    case (snoc ys' y)
    have "0 \<le> bijectiveBase26 ys'" "isColumnLetter y"
      using Nil.prems(2) snoc by (simp_all add: bijectiveBase26_nonneg)
    then have "0 < bijectiveBase26 ys"
      using letter_digit_range[of y] snoc by (simp add: bijectiveBase26_snoc)
    then show ?thesis using Nil.prems(3) by (simp add: bijectiveBase26_def)
  qed
next
  case (snoc x xs')
  have x: "isColumnLetter x" and xs': "list_all isColumnLetter xs'"
    using snoc.prems(1) by simp_all
  show ?case
  proof (cases ys rule: rev_cases)
    case Nil
    have "0 < bijectiveBase26 (xs' @ [x])"
      using letter_digit_range[OF x] bijectiveBase26_nonneg[OF xs']
      by (simp add: bijectiveBase26_snoc)
    then show ?thesis using snoc.prems(3) Nil by (simp add: bijectiveBase26_def)
  next
    case (snoc ys' y)
    have y: "isColumnLetter y" and ys': "list_all isColumnLetter ys'"
      using snoc.prems(2) snoc by simp_all
    have eq: "bijectiveBase26 xs' * 26 + (of_char x - 64) =
              bijectiveBase26 ys' * 26 + (of_char y - 64)"
      using snoc.prems(3) snoc by (simp add: bijectiveBase26_snoc)
    have d: "(of_char x :: int) = of_char y" and v: "bijectiveBase26 xs' = bijectiveBase26 ys'"
      using eq letter_digit_range[OF x] letter_digit_range[OF y] by presburger+
    have "x = y" using d by simp
    moreover have "xs' = ys'" using snoc.IH[OF xs' ys' v] .
    ultimately show ?thesis using snoc by simp
  qed
qed

lemma bijectiveBase26_numberToColumnLetter:
  "bijectiveBase26 (numberToColumnLetter num) = (if num \<ge> 0 then num + 1 else 0)"
proof (induction "nat (num + 1)" arbitrary: num rule: less_induct)
  case less
  show ?case
  proof (cases "num \<ge> 0")
    case False
    then show ?thesis by (simp add: numberToColumnLetter_neg bijectiveBase26_def)
  next
    case True
    let ?m = "num div 26 - 1"
    have lt: "nat (?m + 1) < nat (num + 1)" using True by simp
    have ih: "bijectiveBase26 (numberToColumnLetter ?m) = (if ?m \<ge> 0 then ?m + 1 else 0)"
      using less[OF lt] .
    have m: "bijectiveBase26 (numberToColumnLetter ?m) = num div 26"
      using ih True by (auto simp: not_le)
    have c: "(of_char (char_of (65 + num mod 26) :: char) :: int) = 65 + num mod 26"
      by (rule of_char_letter) simp_all
    show ?thesis
      using True by (simp add: numberToColumnLetter_step bijectiveBase26_snoc m c)
  qed
qed

lemma digitChar_digit:
  "d < 10 \<Longrightarrow> isDigit (digitChar d) \<and> (of_char (digitChar d) :: nat) = 48 + d"
  by (simp add: isDigit_def digitChar_def)

lemma toDecimal_digits: "list_all isDigit (toDecimal n)"
  by (induction n rule: toDecimal.induct) (subst toDecimal.simps, simp add: digitChar_digit)

lemma decimalValue_snoc: "decimalValue (s @ [c]) = decimalValue s * 10 + (of_char c - 48)"
  by (simp add: decimalValue_def)

lemma decimalValue_toDecimal: "decimalValue (toDecimal n) = n"
proof (induction n rule: toDecimal.induct)
  case (1 n)
  show ?case
  proof (cases "n < 10")
    case True
    then show ?thesis by (subst toDecimal.simps) (simp add: decimalValue_def digitChar_digit)
  next
    case False
    then have "decimalValue (toDecimal (n div 10)) = n div 10" using 1 by simp
    then show ?thesis using False
      by (subst toDecimal.simps) (simp add: decimalValue_snoc digitChar_digit)
  qed
qed

lemma toDecimal_no_leading_zero: "0 < n \<Longrightarrow> hd (toDecimal n) \<noteq> CHR ''0''"
proof (induction n rule: toDecimal.induct)
  case (1 n)
  show ?case
  proof (cases "n < 10")
    case True
    then have "(of_char (digitChar n) :: nat) \<noteq> of_char CHR ''0''"
      using 1(2) by (simp add: digitChar_digit)
    then have "digitChar n \<noteq> CHR ''0''" by metis
    then show ?thesis using True by (subst toDecimal.simps) simp
  next
    case False
    then have "hd (toDecimal (n div 10)) \<noteq> CHR ''0''" using 1 by simp
    moreover have "toDecimal (n div 10) \<noteq> []" by (subst toDecimal.simps) simp
    ultimately show ?thesis using False
      by (subst toDecimal.simps) simp
  qed
qed

lemma numberToColumnLetter_examples:
  "numberToColumnLetter 0 = ''A''" "numberToColumnLetter 25 = ''Z''"
  "numberToColumnLetter 26 = ''AA''" "numberToColumnLetter 27 = ''AB''"
  by (simp_all add: numberToColumnLetter_step numberToColumnLetter_neg char_of_def)

text \<open>
  Claim C10. For every row \<open>\<ge> 1\<close> and column index \<open>col \<ge> 0\<close>, \<open>getA1Notation row col\<close> is the
  column letters of \<open>col\<close> followed by the decimal row number. The letters are a non-empty word
  over \<open>A\<close>..\<open>Z\<close> whose bijective base-26 value is \<open>col + 1\<close>, and they are the only such word;
  the digits are the decimal numeral of \<open>row\<close> without a leading zero. Index 0 gives \<open>A\<close>, 25
  gives \<open>Z\<close> and 26 gives \<open>AA\<close>.
\<close>

theorem C10_getA1Notation_bijective_base26:
  assumes "1 \<le> row" and "0 \<le> col"
  shows "getA1Notation row col = numberToColumnLetter col @ toDecimal (nat row)
       \<and> numberToColumnLetter col \<noteq> []
       \<and> list_all isColumnLetter (numberToColumnLetter col)
       \<and> bijectiveBase26 (numberToColumnLetter col) = col + 1
       \<and> (\<forall>s. list_all isColumnLetter s \<and> bijectiveBase26 s = col + 1
              \<longrightarrow> s = numberToColumnLetter col)
       \<and> list_all isDigit (toDecimal (nat row))
       \<and> int (decimalValue (toDecimal (nat row))) = row
       \<and> hd (toDecimal (nat row)) \<noteq> CHR ''0''
       \<and> numberToColumnLetter 0 = ''A'' \<and> numberToColumnLetter 25 = ''Z''
       \<and> numberToColumnLetter 26 = ''AA''"
proof -
  have a: "getA1Notation row col = numberToColumnLetter col @ toDecimal (nat row)"
    using assms(1) by (simp add: getA1Notation_def numberToString_def)
  have v: "bijectiveBase26 (numberToColumnLetter col) = col + 1"
    using assms(2) by (simp add: bijectiveBase26_numberToColumnLetter)
  have u: "\<forall>s. list_all isColumnLetter s \<and> bijectiveBase26 s = col + 1
              \<longrightarrow> s = numberToColumnLetter col"
    using bijectiveBase26_inj[OF _ numberToColumnLetter_letters[of col]] v by simp
  have d: "int (decimalValue (toDecimal (nat row))) = row"
    using assms(1) by (simp add: decimalValue_toDecimal)
  have z: "hd (toDecimal (nat row)) \<noteq> CHR ''0''"
    using assms(1) by (simp add: toDecimal_no_leading_zero)
  note facts = a v u d z numberToColumnLetter_nonempty[OF assms(2)]
    numberToColumnLetter_letters[of col] toDecimal_digits[of "nat row"]
    numberToColumnLetter_examples(1,2,3)
  show ?thesis
    by (intro conjI) (rule facts)+
qed

theorem C10_getA1Notation_bijective_base26_witness:
  "(1::int) \<le> 12 \<and> (0::int) \<le> 27 \<and> getA1Notation 12 27 = ''AB12''
   \<and> bijectiveBase26 ''AB'' = 28 \<and> decimalValue ''12'' = 12"
proof -
  have h1: "(1::int) \<le> 12" and h2: "(0::int) \<le> 27" by simp_all
  note th = C10_getA1Notation_bijective_base26[OF h1 h2]
  have l: "numberToColumnLetter 27 = ''AB''" by (rule numberToColumnLetter_examples(4))
  have t: "toDecimal (nat 12) = ''12''" by code_simp
  have g: "getA1Notation 12 27 = numberToColumnLetter 27 @ toDecimal (nat 12)"
    using th by (rule conjunct1)
  have b: "bijectiveBase26 (numberToColumnLetter 27) = 27 + 1"
    using th by (elim conjE)
  have d: "int (decimalValue (toDecimal (nat 12))) = 12"
    using th by (elim conjE)
  have d': "decimalValue ''12'' = 12" using d unfolding t by linarith
  show ?thesis
    using g b d' unfolding l t by simp
qed


section \<open>Heuristic boolean detection\<close>

lemma str_includes_sublist: "str_includes s sub \<longleftrightarrow> sublist sub s"
  by (induction s) (simp_all add: sublist_Cons_right)

lemma dropWhile_all_iff:
  "(\<forall>x \<in> set (dropWhile P xs). P x) \<longleftrightarrow> (\<forall>x \<in> set xs. P x)"
proof
  assume a: "\<forall>x \<in> set (dropWhile P xs). P x"
  have "dropWhile P xs = []"
  proof (rule ccontr)
    assume ne: "dropWhile P xs \<noteq> []"
    then have "\<not> P (hd (dropWhile P xs))" by (rule hd_dropWhile)
    moreover have "hd (dropWhile P xs) \<in> set (dropWhile P xs)" using ne by simp
    ultimately show False using a by blast
  qed
  then show "\<forall>x \<in> set xs. P x" by (simp add: dropWhile_eq_Nil_conv)
next
  assume "\<forall>x \<in> set xs. P x"
  then show "\<forall>x \<in> set (dropWhile P xs). P x" by (auto dest: set_dropWhileD)
qed

lemma trim_Nil_iff: "trim v = [] \<longleftrightarrow> (\<forall>ch \<in> set v. isWhitespace ch)"
  by (simp add: trim_def dropWhile_eq_Nil_conv dropWhile_all_iff)

lemma trim_decompose:
  "\<exists>a b. v = a @ trim v @ b \<and> (\<forall>ch \<in> set a. isWhitespace ch) \<and> (\<forall>ch \<in> set b. isWhitespace ch)"
proof -
  let ?a = "takeWhile isWhitespace v"
  let ?r = "dropWhile isWhitespace v"
  let ?b = "rev (takeWhile isWhitespace (rev ?r))"
  have "rev ?r = takeWhile isWhitespace (rev ?r) @ dropWhile isWhitespace (rev ?r)" by simp
  then have "?r = rev (dropWhile isWhitespace (rev ?r)) @ ?b"
    by (metis rev_append rev_rev_ident)
  then have "v = ?a @ trim v @ ?b"
    unfolding trim_def by (metis takeWhile_dropWhile_id)
  moreover have "\<forall>ch \<in> set ?a. isWhitespace ch" by (auto dest: set_takeWhileD)
  moreover have "\<forall>ch \<in> set ?b. isWhitespace ch" by (auto dest: set_takeWhileD)
  ultimately show ?thesis by blast
qed

lemma trim_ends:
  "trim v \<noteq> [] \<Longrightarrow> \<not> isWhitespace (hd (trim v)) \<and> \<not> isWhitespace (last (trim v))"
proof -
  assume ne: "trim v \<noteq> []"
  let ?r = "dropWhile isWhitespace v"
  let ?q = "dropWhile isWhitespace (rev ?r)"
  have q: "?q \<noteq> []" using ne by (simp add: trim_def)
  then have l: "\<not> isWhitespace (hd ?q)" by (rule hd_dropWhile)
  have "last (trim v) = hd ?q" using q by (simp add: trim_def last_rev)
  then have a: "\<not> isWhitespace (last (trim v))" using l by simp
  have r: "?r \<noteq> []" using q by (cases "?r = []") simp_all
  then have hr: "\<not> isWhitespace (hd ?r)" by (rule hd_dropWhile)
  obtain ws where "rev ?r = ws @ ?q" by (metis takeWhile_dropWhile_id)
  then have "?r = rev ?q @ rev ws" by (metis rev_append rev_rev_ident)
  then have "hd ?r = hd (rev ?q)" using q by (metis hd_append2 rev_is_Nil_conv)
  then have "\<not> isWhitespace (hd (trim v))" using hr by (simp add: trim_def)
  then show ?thesis using a by simp
qed

lemma isBooleanColumn_iff:
  "isBooleanColumn c v \<longleftrightarrow>
     (\<exists>name \<in> {''done'', ''completed'', ''finished'', ''active'', ''visited''}. sublist name c)
     \<or> v \<in> {''true'', ''false'', ''yes'', ''no'', ''y'', ''n'', ''1'', ''0'', ''done'', ''completed''}"
  unfolding isBooleanColumn_def Let_def str_includes_sublist by simp

lemma convertToBoolean_iff:
  "convertToBoolean v \<longleftrightarrow>
     v \<in> {''true'', ''yes'', ''y'', ''1'', ''done'', ''completed'', ''active'', ''visited''}"
  unfolding convertToBoolean_def Let_def by simp

text \<open>
  Claim C1. \<open>smartTypeConversion value columnName\<close> returns the empty string when the value is
  empty or only whitespace. Otherwise, with \<open>v\<close> the trimmed value lowercased and \<open>c\<close> the column
  name lowercased, the result is a boolean exactly when \<open>c\<close> contains one of the five column
  words or \<open>v\<close> is one of the ten boolean words; the boolean is then true exactly when \<open>v\<close> is one
  of the eight truthy words; in every other case the result is the trimmed value itself. The
  trimmed value is the original without its leading and trailing whitespace.
\<close>

theorem C1_smartTypeConversion_heuristic:
  "smartTypeConversion v columnName =
     (if (\<forall>ch \<in> set v. isWhitespace ch) then JStr []
      else if (\<exists>name \<in> {''done'', ''completed'', ''finished'', ''active'', ''visited''}.
                 sublist name (toLowerCase columnName))
              \<or> toLowerCase (trim v) \<in> {''true'', ''false'', ''yes'', ''no'', ''y'', ''n'', ''1'',
                                          ''0'', ''done'', ''completed''}
           then JBool (toLowerCase (trim v) \<in> {''true'', ''yes'', ''y'', ''1'', ''done'',
                                               ''completed'', ''active'', ''visited''})
           else JStr (trim v))
   \<and> (\<exists>a b. v = a @ trim v @ b \<and> (\<forall>ch \<in> set a. isWhitespace ch) \<and> (\<forall>ch \<in> set b. isWhitespace ch))
   \<and> (trim v \<noteq> [] \<longrightarrow> \<not> isWhitespace (hd (trim v)) \<and> \<not> isWhitespace (last (trim v)))"
proof -
  have main: "smartTypeConversion v columnName =
     (if (\<forall>ch \<in> set v. isWhitespace ch) then JStr []
      else if (\<exists>name \<in> {''done'', ''completed'', ''finished'', ''active'', ''visited''}.
                 sublist name (toLowerCase columnName))
              \<or> toLowerCase (trim v) \<in> {''true'', ''false'', ''yes'', ''no'', ''y'', ''n'', ''1'',
                                          ''0'', ''done'', ''completed''}
           then JBool (toLowerCase (trim v) \<in> {''true'', ''yes'', ''y'', ''1'', ''done'',
                                               ''completed'', ''active'', ''visited''})
           else JStr (trim v))"
  proof (cases "\<forall>ch \<in> set v. isWhitespace ch")
    case True
    then have "trim v = []" by (simp add: trim_Nil_iff)
    then show ?thesis using True by (simp add: smartTypeConversion_def)
  next
    case False
    then have "trim v \<noteq> []" "v \<noteq> []" by (auto simp: trim_Nil_iff)
    then have "smartTypeConversion v columnName =
       (if isBooleanColumn (toLowerCase columnName) (toLowerCase (trim v))
        then JBool (convertToBoolean (toLowerCase (trim v))) else JStr (trim v))"
      by (simp add: smartTypeConversion_def Let_def)
    then show ?thesis using False
      by (simp only: isBooleanColumn_iff convertToBoolean_iff if_False)
  qed
  show ?thesis
    using main trim_decompose[of v] trim_ends[of v] by blast
qed

theorem C1_smartTypeConversion_heuristic_witness:
  "smartTypeConversion ''  Yes '' ''Name'' = JBool True
   \<and> smartTypeConversion '' no'' ''Name'' = JBool False
   \<and> smartTypeConversion ''Bob '' ''IsActive'' = JBool False
   \<and> smartTypeConversion '' Bob '' ''Name'' = JStr ''Bob''
   \<and> smartTypeConversion ''   '' ''Done'' = JStr []"
proof -
  have s: "sublist ''active'' ''isactive''"
    by (simp add: sublist_Cons_right)
  have t: "trim ''  Yes '' = ''Yes''" "trim '' no'' = ''no''" "trim ''Bob '' = ''Bob''"
      "trim '' Bob '' = ''Bob''"
    by code_simp+
  have n: "\<not> sublist ''done'' ''name''" "\<not> sublist ''completed'' ''name''"
      "\<not> sublist ''finished'' ''name''" "\<not> sublist ''active'' ''name''"
      "\<not> sublist ''visited'' ''name''"
    by (simp_all add: sublist_Cons_right)
  have l: "toLowerCase ''Name'' = ''name''" "toLowerCase ''IsActive'' = ''isactive''"
      "toLowerCase ''Yes'' = ''yes''" "toLowerCase ''no'' = ''no''" "toLowerCase ''Bob'' = ''bob''"
    by code_simp+
  show ?thesis
    using C1_smartTypeConversion_heuristic[of "''  Yes ''" "''Name''"]
      C1_smartTypeConversion_heuristic[of "'' no''" "''Name''"]
      C1_smartTypeConversion_heuristic[of "''Bob ''" "''IsActive''"]
      C1_smartTypeConversion_heuristic[of "'' Bob ''" "''Name''"]
      C1_smartTypeConversion_heuristic[of "''   ''" "''Done''"]
    by (simp add: s t n l isWhitespace_def)
qed

section \<open>Rows built from the raw value grid\<close>

lemma map_of_setProp:
  "map_of (setProp obj k v) = (if k = ''__proto__'' then map_of obj else (map_of obj)(k \<mapsto> v))"
  by (simp add: setProp_def update_conv')

lemma distinct_setProp: "distinct (map fst obj) \<Longrightarrow> distinct (map fst (setProp obj k v))"
  by (simp add: setProp_def distinct_update)

lemma foldl_setProp_snoc:
  "foldl (\<lambda>obj ch. setProp obj (snd ch) (g (fst ch) (snd ch))) obj0 (enumerate 0 (hs @ [h])) =
   setProp (foldl (\<lambda>obj ch. setProp obj (snd ch) (g (fst ch) (snd ch))) obj0 (enumerate 0 hs))
     h (g (length hs) h)"
  by (simp add: enumerate_append_eq)

lemma foldl_setProp_distinct:
  "distinct (map fst obj0) \<Longrightarrow>
   distinct (map fst (foldl (\<lambda>obj ch. setProp obj (snd ch) (g (fst ch) (snd ch))) obj0
                        (enumerate 0 hs)))"
proof (induction hs rule: rev_induct)
  case Nil
  then show ?case by simp
next
  case (snoc h hs)
  then show ?case by (simp only: foldl_setProp_snoc distinct_setProp)
qed

lemma foldl_setProp_other:
  "k \<notin> set hs - {''__proto__''} \<Longrightarrow>
   map_of (foldl (\<lambda>obj ch. setProp obj (snd ch) (g (fst ch) (snd ch))) obj0 (enumerate 0 hs)) k =
   map_of obj0 k"
proof (induction hs rule: rev_induct)
  case Nil
  then show ?case by simp
next
  case (snoc h hs)
  then have "k \<notin> set hs - {''__proto__''}" and "h = ''__proto__'' \<or> h \<noteq> k" by auto
  then show ?case using snoc.IH
    by (auto simp only: foldl_setProp_snoc map_of_setProp fun_upd_apply split: if_splits)
qed

lemma foldl_setProp_keys:
  "dom (map_of (foldl (\<lambda>obj ch. setProp obj (snd ch) (g (fst ch) (snd ch))) obj0 (enumerate 0 hs))) =
   dom (map_of obj0) \<union> (set hs - {''__proto__''})"
proof (induction hs rule: rev_induct)
  case Nil
  then show ?case by simp
next
  case (snoc h hs)
  show ?case
    unfolding foldl_setProp_snoc map_of_setProp using snoc.IH by auto
qed

lemma foldl_setProp_last:
  "j < length hs \<Longrightarrow> hs ! j \<noteq> ''__proto__'' \<Longrightarrow>
   (\<forall>j'. j < j' \<and> j' < length hs \<longrightarrow> hs ! j' \<noteq> hs ! j) \<Longrightarrow>
   map_of (foldl (\<lambda>obj ch. setProp obj (snd ch) (g (fst ch) (snd ch))) obj0 (enumerate 0 hs)) (hs ! j) =
   Some (g j (hs ! j))"
proof (induction hs rule: rev_induct)
  case Nil
  then show ?case by simp
next
  case (snoc h hs)
  show ?case
  proof (cases "j = length hs")
    case True
    then have "(hs @ [h]) ! j = h" by simp
    moreover have "h \<noteq> ''__proto__''" using snoc.prems(2) True by simp
    ultimately show ?thesis using True
      by (simp only: foldl_setProp_snoc map_of_setProp) simp
  next
    case False
    then have jl: "j < length hs" using snoc.prems(1) by simp
    then have nth: "(hs @ [h]) ! j = hs ! j" by (simp add: nth_append)
    have "length hs < length (hs @ [h])" by simp
    then have "(hs @ [h]) ! length hs \<noteq> (hs @ [h]) ! j" using snoc.prems(3) jl by blast
    then have hne: "h \<noteq> hs ! j" using nth by simp
    have later: "\<forall>j'. j < j' \<and> j' < length hs \<longrightarrow> hs ! j' \<noteq> hs ! j"
    proof (intro allI impI)
      fix j' assume a: "j < j' \<and> j' < length hs"
      then have "(hs @ [h]) ! j' \<noteq> (hs @ [h]) ! j" using snoc.prems(3) by simp
      then show "hs ! j' \<noteq> hs ! j" using a nth by (simp add: nth_append)
    qed
    have "hs ! j \<noteq> ''__proto__''" using snoc.prems(2) nth by simp
    then have ih: "map_of (foldl (\<lambda>obj ch. setProp obj (snd ch) (g (fst ch) (snd ch))) obj0
                             (enumerate 0 hs)) (hs ! j) = Some (g j (hs ! j))"
      using snoc.IH jl later by blast
    show ?thesis
      unfolding nth foldl_setProp_snoc map_of_setProp using hne ih by simp
  qed
qed

lemma transformRawDataToRows_length:
  "length (transformRawDataToRows cfg (sheetHeaders # dataRows)) = length dataRows"
  by (simp add: transformRawDataToRows_def Let_def)

lemma transformRawDataToRows_nth:
  "i < length dataRows \<Longrightarrow>
   transformRawDataToRows cfg (sheetHeaders # dataRows) ! i =
   transformRow (if headers cfg \<noteq> [] then headers cfg else sheetHeaders) (i, dataRows ! i)"
  by (simp add: transformRawDataToRows_def Let_def nth_enumerate_eq)

lemma transformRow_eq:
  "transformRow eff (i, row) =
   foldl (\<lambda>obj ch. setProp obj (snd ch)
                     ((\<lambda>j h. smartTypeConversion (cellValue row j) h) (fst ch) (snd ch)))
     (initialRowObject i row) (enumerate 0 eff)"
proof -
  have "numberToString (int i + 1) = toDecimal (i + 1)"
    by (simp add: numberToString_def nat_add_distrib)
  moreover have "(case row of [] \<Rightarrow> g | c # cs \<Rightarrow> if c = [] then g else c) =
        (if cellValue row 0 \<noteq> [] then cellValue row 0 else g)" for g :: string
    by (cases row) (simp_all add: cellValue_def)
  ultimately show ?thesis
    by (simp add: transformRow_def initialRowObject_def Let_def)
qed

lemma transformRow_id:
  "''_id'' \<notin> set eff \<Longrightarrow>
   getProp (transformRow eff (i, row)) ''_id'' =
     JStr (if cellValue row 0 \<noteq> [] then cellValue row 0 else ''row_'' @ toDecimal (i + 1))"
  unfolding transformRow_eq getProp_def
  by (subst foldl_setProp_other) (simp_all add: initialRowObject_def)

lemma transformRow_rowIndex:
  "''_rowIndex'' \<notin> set eff \<Longrightarrow>
   getProp (transformRow eff (i, row)) ''_rowIndex'' = JNum (int i + 1)"
  unfolding transformRow_eq getProp_def
  by (subst foldl_setProp_other) (simp_all add: initialRowObject_def)

lemma transformRow_keys:
  "fst ` set (transformRow eff (i, row)) = {''_id'', ''_rowIndex''} \<union> (set eff - {''__proto__''})"
proof -
  have "dom (map_of (initialRowObject i row)) = {''_id'', ''_rowIndex''}"
    by (simp add: initialRowObject_def dom_map_of_conv_image_fst insert_commute)
  then have "dom (map_of (transformRow eff (i, row))) =
             {''_id'', ''_rowIndex''} \<union> (set eff - {''__proto__''})"
    using foldl_setProp_keys[where g = "\<lambda>j h. smartTypeConversion (cellValue row j) h"
        and ?obj0.0 = "initialRowObject i row" and hs = eff]
    by (simp only: transformRow_eq)
  then show ?thesis by (simp only: dom_map_of_conv_image_fst)
qed

lemma transformRow_distinct: "distinct (map fst (transformRow eff (i, row)))"
  unfolding transformRow_eq by (rule foldl_setProp_distinct) (simp add: initialRowObject_def)

lemma transformRow_field:
  "j < length eff \<Longrightarrow> eff ! j \<noteq> ''__proto__'' \<Longrightarrow>
   (\<forall>j'. j < j' \<and> j' < length eff \<longrightarrow> eff ! j' \<noteq> eff ! j) \<Longrightarrow>
   getProp (transformRow eff (i, row)) (eff ! j) = smartTypeConversion (cellValue row j) (eff ! j)"
  unfolding transformRow_eq getProp_def
  by (subst foldl_setProp_last) simp_all

text \<open>
  What \<open>transformRawDataToRows\<close> guarantees for every grid with a header row: one record per
  data row; \<open>_id\<close> is the first cell, or \<open>row_\<close> and the 1-based index when that cell is empty
  or missing, and \<open>_rowIndex\<close> is the 1-based index, as long as no effective header bears
  the name of that property; the properties are \<open>_id\<close>, \<open>_rowIndex\<close> and the effective headers
  other than \<open>__proto__\<close>, each once; a header holds the converted cell of its last column.
\<close>

lemma transformRawDataToRows_records:
  assumes "i < length dataRows"
  shows "length (transformRawDataToRows cfg (sheetHeaders # dataRows)) = length dataRows
    \<and> (''_id'' \<notin> set (if headers cfg \<noteq> [] then headers cfg else sheetHeaders) \<longrightarrow>
         getProp (transformRawDataToRows cfg (sheetHeaders # dataRows) ! i) ''_id'' =
           JStr (if cellValue (dataRows ! i) 0 \<noteq> [] then cellValue (dataRows ! i) 0
                 else ''row_'' @ toDecimal (i + 1)))
    \<and> (''_rowIndex'' \<notin> set (if headers cfg \<noteq> [] then headers cfg else sheetHeaders) \<longrightarrow>
         getProp (transformRawDataToRows cfg (sheetHeaders # dataRows) ! i) ''_rowIndex'' =
           JNum (int i + 1))
    \<and> fst ` set (transformRawDataToRows cfg (sheetHeaders # dataRows) ! i) =
         {''_id'', ''_rowIndex''} \<union>
         (set (if headers cfg \<noteq> [] then headers cfg else sheetHeaders) - {''__proto__''})
    \<and> distinct (map fst (transformRawDataToRows cfg (sheetHeaders # dataRows) ! i))"
proof -
  have nth: "transformRawDataToRows cfg (sheetHeaders # dataRows) ! i =
             transformRow (if headers cfg \<noteq> [] then headers cfg else sheetHeaders) (i, dataRows ! i)"
    using assms by (rule transformRawDataToRows_nth)
  show ?thesis
    unfolding nth
    apply (intro conjI impI)
        apply (rule transformRawDataToRows_length)
       apply (erule transformRow_id)
      apply (erule transformRow_rowIndex)
     apply (rule transformRow_keys)
    apply (rule transformRow_distinct)
    done
qed

lemma transformRawDataToRows_fields:
  assumes "i < length dataRows"
      and "j < length (if headers cfg \<noteq> [] then headers cfg else sheetHeaders)"
      and "(if headers cfg \<noteq> [] then headers cfg else sheetHeaders) ! j \<noteq> ''__proto__''"
      and "\<forall>j'. j < j' \<and> j' < length (if headers cfg \<noteq> [] then headers cfg else sheetHeaders)
              \<longrightarrow> (if headers cfg \<noteq> [] then headers cfg else sheetHeaders) ! j' \<noteq>
                   (if headers cfg \<noteq> [] then headers cfg else sheetHeaders) ! j"
  shows "getProp (transformRawDataToRows cfg (sheetHeaders # dataRows) ! i)
           ((if headers cfg \<noteq> [] then headers cfg else sheetHeaders) ! j) =
         smartTypeConversion (cellValue (dataRows ! i) j)
           ((if headers cfg \<noteq> [] then headers cfg else sheetHeaders) ! j)"
  using assms(1) transformRow_field[OF assms(2,3,4)]
  by (simp only: transformRawDataToRows_nth)

lemmas row_eval =
  transformRawDataToRows_def transformRow_def setProp_def smartTypeConversion_def
  isBooleanColumn_def convertToBoolean_def cellValue_def numberToString_def getProp_def Let_def

lemma trim_examples:
  "trim ''Bob'' = ''Bob''" "trim ''yes'' = ''yes''" "trim ''x'' = ''x''" "trim ''Ann'' = ''Ann''"
  "trim '' '' = []"
  by code_simp+

lemma toLowerCase_examples:
  "toLowerCase ''Bob'' = ''bob''" "toLowerCase ''yes'' = ''yes''" "toLowerCase ''x'' = ''x''"
  "toLowerCase ''Ann'' = ''ann''" "toLowerCase ''Name'' = ''name''"
  "toLowerCase ''Done'' = ''done''" "toLowerCase ''_id'' = ''_id''"
  "toLowerCase ''_rowIndex'' = ''_rowindex''"
  by code_simp+

lemma str_includes_examples:
  "\<not> str_includes ''name'' ''done''" "\<not> str_includes ''name'' ''completed''"
  "\<not> str_includes ''name'' ''finished''" "\<not> str_includes ''name'' ''active''"
  "\<not> str_includes ''name'' ''visited''"
  "\<not> str_includes ''_id'' ''done''" "\<not> str_includes ''_id'' ''completed''"
  "\<not> str_includes ''_id'' ''finished''" "\<not> str_includes ''_id'' ''active''"
  "\<not> str_includes ''_id'' ''visited''"
  "\<not> str_includes ''_rowindex'' ''done''" "\<not> str_includes ''_rowindex'' ''completed''"
  "\<not> str_includes ''_rowindex'' ''finished''" "\<not> str_includes ''_rowindex'' ''active''"
  "\<not> str_includes ''_rowindex'' ''visited''"
  "str_includes ''done'' ''done''"
  by code_simp+

lemma toDecimal_examples: "toDecimal 1 = ''1''" "toDecimal 2 = ''2''"
  by code_simp+

lemma exampleRows:
  "transformRawDataToRows exampleConfig exampleSheet =
     [[(''_id'', JStr ''Bob''), (''_rowIndex'', JNum 1), (''Name'', JStr ''Bob''),
       (''Done'', JBool True)],
      [(''_id'', JStr ''Ann''), (''_rowIndex'', JNum 2), (''Name'', JStr ''Ann''),
       (''Done'', JStr [])]]"
  by (simp add: exampleConfig_def exampleSheet_def row_eval trim_examples toLowerCase_examples
      str_includes_examples)

text \<open>
  Claim C5. Each sheet row becomes one record whose \<open>_id\<close> is the row's first cell (or
  \<open>row_\<close> and the 1-based index) and whose \<open>_rowIndex\<close> is the 1-based index. On the sheet
  \<open>collidingSheet\<close>, whose second and third columns are named \<open>_id\<close> and \<open>_rowIndex\<close>, the only
  data row has first cell \<open>Bob\<close>, yet the record has \<open>_id\<close> equal to the boolean \<open>true\<close> and
  \<open>_rowIndex\<close> equal to the string \<open>x\<close>: the header loop overwrites both properties.
\<close>

theorem C5_header_overwrites_row_identifier:
  "transformRawDataToRows collidingConfig collidingSheet =
     [[(''_id'', JBool True), (''_rowIndex'', JStr ''x''), (''Name'', JStr ''Bob'')]]
   \<and> getProp (transformRawDataToRows collidingConfig collidingSheet ! 0) ''_id'' \<noteq> JStr ''Bob''
   \<and> getProp (transformRawDataToRows collidingConfig collidingSheet ! 0) ''_rowIndex'' \<noteq> JNum 1"
  by (simp add: collidingConfig_def collidingSheet_def row_eval trim_examples toLowerCase_examples
      str_includes_examples)

section \<open>Requests, the client cache and failed writes\<close>

lemma makeRequest_world:
  "snd (makeRequest net c meth endpoint dat w) =
     w\<lparr>clock := clock w + int (fst (net (length (sent w)))),
       sent := sent w @ [\<lparr>http_method = meth, url = apiBaseUrl (config c) @ endpoint, body = dat\<rparr>]\<rparr>"
  by (simp add: makeRequest_def Let_def split: fetch_outcome.splits)

lemma client_getAllData_sent:
  "sent (snd (snd (client_getAllData net (c, w)))) = sent w \<or>
   (\<exists>rq. sent (snd (snd (client_getAllData net (c, w)))) = sent w @ [rq] \<and>
         http_method rq = ''GET'' \<and> body rq = None)"
  by (simp add: client_getAllData_def Let_def makeRequest_world split: option.splits sum.splits)

lemma client_getAllData_cache:
  "(case fst (client_getAllData net (c, w)) of
      Inl e \<Rightarrow> cache (fst (snd (client_getAllData net (c, w)))) = cache c
    | Inr rows \<Rightarrow>
        cache (fst (snd (client_getAllData net (c, w)))) = cache c \<or>
        cache (fst (snd (client_getAllData net (c, w)))) =
          (cache c)(''all_data'' \<mapsto>
             \<lparr>c_data = rows, c_timestamp = clock (snd (snd (client_getAllData net (c, w))))\<rparr>))"
  by (simp add: client_getAllData_def Let_def split: option.splits sum.splits)

lemma findIndex_bounds: "- 1 \<le> findIndex P xs"
  by (induction xs) (simp_all add: Let_def)

lemma findIndex_none_iff: "findIndex P xs = - 1 \<longleftrightarrow> (\<forall>x \<in> set xs. \<not> P x)"
proof (induction xs)
  case Nil
  show ?case by simp
next
  case (Cons x xs)
  have "- 1 \<le> findIndex P xs" by (rule findIndex_bounds)
  then have "findIndex P xs + 1 \<noteq> - 1" by simp
  then show ?case using Cons by (simp add: Let_def)
qed

lemma indexOf_none_iff: "indexOf xs x = - 1 \<longleftrightarrow> x \<notin> set xs"
  by (auto simp: indexOf_def findIndex_none_iff)

lemma updateField_load_failed:
  "fst (client_getAllData net cw) = Inl e \<Longrightarrow>
   updateField formatValue net params cw = (failure e, snd (client_getAllData net cw))"
  by (simp add: updateField_def findRowByIdentifier_def Let_def)

lemma updateField_no_row:
  assumes "fst (client_getAllData net cw) = Inr allData"
      and "\<forall>row \<in> set allData. \<not> findRowMatch (config (fst cw)) (op_identifier params) row"
  shows "updateField formatValue net params cw =
     (failure (''Row with identifier '' @ idText (op_identifier params) @ '' not found''),
      snd (client_getAllData net cw))"
proof -
  have "findIndex (findRowMatch (config (fst cw)) (op_identifier params)) allData = - 1"
    using assms(2) by (simp add: findIndex_none_iff)
  then show ?thesis using assms(1)
    by (simp add: updateField_def findRowByIdentifier_def Let_def)
qed

lemma updateField_no_field:
  assumes "fst (client_getAllData net cw) = Inr allData"
      and "\<not> (\<forall>row \<in> set allData. \<not> findRowMatch (config (fst cw)) (op_identifier params) row)"
      and "field params \<notin> set (headers (config (fst cw)))"
  shows "updateField formatValue net params cw =
     (failure (''Field '' @ field params @ '' not found in headers''),
      snd (client_getAllData net cw))"
proof -
  have "findIndex (findRowMatch (config (fst cw)) (op_identifier params)) allData \<noteq> - 1"
    using assms(2) by (simp only: findIndex_none_iff not_False_eq_True)
  moreover have "indexOf (headers (config (fst cw))) (field params) = - 1"
    using assms(3) by (simp add: indexOf_none_iff)
  ultimately show ?thesis using assms(1)
    by (simp add: updateField_def findRowByIdentifier_def Let_def)
qed

lemma example_load:
  "client_getAllData sheetNetwork (exampleClient, startWorld) =
     (Inr (transformRawDataToRows exampleConfig exampleSheet),
      \<lparr>config = exampleConfig,
       cache = [''all_data'' \<mapsto> \<lparr>c_data = transformRawDataToRows exampleConfig exampleSheet,
                                   c_timestamp = 1000120\<rparr>]\<rparr>,
      \<lparr>clock = 1000120,
       sent = [\<lparr>http_method = ''GET'', url = ''https://api.example/v1/sheets/s1/data?range=A1:Z1000'',
                body = None\<rparr>]\<rparr>)"
proof -
  have "exampleSheet \<noteq> []" by (simp add: exampleSheet_def)
  then show ?thesis
    by (simp add: client_getAllData_def Let_def makeRequest_def sheetNetwork_def exampleClient_def
        startWorld_def CACHE_TTL_def)
       (simp add: exampleConfig_def)
qed

lemma offline_load:
  "client_getAllData offlineNetwork (exampleClient, startWorld) =
     (Inl ''API request failed: Failed to fetch'', exampleClient,
      \<lparr>clock = 1000030,
       sent = [\<lparr>http_method = ''GET'', url = ''https://api.example/v1/sheets/s1/data?range=A1:Z1000'',
                body = None\<rparr>]\<rparr>)"
  by (simp add: client_getAllData_def Let_def makeRequest_def offlineNetwork_def exampleClient_def
      startWorld_def CACHE_TTL_def exampleConfig_def)

lemma example_no_Zed:
  "\<forall>row \<in> set (transformRawDataToRows exampleConfig exampleSheet).
     \<not> findRowMatch exampleConfig (IdStr ''Zed'') row"
  unfolding exampleRows
  by (simp add: findRowMatch_def getProp_def firstHeaderKey_def exampleConfig_def)

lemma example_has_Bob:
  "\<not> (\<forall>row \<in> set (transformRawDataToRows exampleConfig exampleSheet).
        \<not> findRowMatch exampleConfig (IdStr ''Bob'') row)"
  unfolding exampleRows
  by (simp add: findRowMatch_def getProp_def firstHeaderKey_def exampleConfig_def)

text \<open>
  Claim C7, as stated: an update whose identifier matches no row or whose field is not a
  configured header fails with a message naming the missing row or field, sends no write
  request and leaves the client cache unchanged. On a client with an empty cache the update of
  the missing row \<open>Zed\<close> fails, but the read that looked the row up has filled the cache; and
  when the sheet cannot be read, the update of the missing field \<open>Age\<close> fails with the message
  of the read, which does not name the field.
\<close>

theorem C7_cache_filled_counterexample:
  "success (fst (updateField noFormat sheetNetwork missingRowUpdate (exampleClient, startWorld)))
     = False
   \<and> cache exampleClient ''all_data'' = None
   \<and> cache (fst (snd (updateField noFormat sheetNetwork missingRowUpdate
                          (exampleClient, startWorld)))) ''all_data''
       = Some \<lparr>c_data = transformRawDataToRows exampleConfig exampleSheet, c_timestamp = 1000120\<rparr>
   \<and> field missingFieldUpdate = ''Age'' \<and> ''Age'' \<notin> set (headers (config exampleClient))
   \<and> error (fst (updateField noFormat offlineNetwork missingFieldUpdate (exampleClient, startWorld)))
       = Some ''API request failed: Failed to fetch''"
proof -
  have c: "config exampleClient = exampleConfig" by (simp add: exampleClient_def)
  have z: "\<forall>row \<in> set (transformRawDataToRows exampleConfig exampleSheet).
     \<not> findRowMatch (config (fst (exampleClient, startWorld))) (op_identifier missingRowUpdate) row"
    using example_no_Zed by (simp add: c missingRowUpdate_def)
  have l: "fst (client_getAllData sheetNetwork (exampleClient, startWorld)) =
           Inr (transformRawDataToRows exampleConfig exampleSheet)"
    by (simp add: example_load)
  have a: "updateField noFormat sheetNetwork missingRowUpdate (exampleClient, startWorld) =
     (failure (''Row with identifier '' @ idText (op_identifier missingRowUpdate) @ '' not found''),
      snd (client_getAllData sheetNetwork (exampleClient, startWorld)))"
    using l z by (rule updateField_no_row)
  have b: "updateField noFormat offlineNetwork missingFieldUpdate (exampleClient, startWorld) =
     (failure ''API request failed: Failed to fetch'',
      snd (client_getAllData offlineNetwork (exampleClient, startWorld)))"
    by (rule updateField_load_failed) (simp add: offline_load)
  show ?thesis
    unfolding a b
    by (simp add: example_load failure_def)
       (simp add: exampleClient_def exampleConfig_def missingFieldUpdate_def)
qed

text \<open>
  Claim C7, amended. When the sheet data loads and the identifier matches no row or the field
  is not a configured header, \<open>updateField\<close> returns \<open>success = false\<close> with the message naming
  the missing row (checked first) or the missing field, and ends in the state the read left:
  no request is sent after the read, which itself sends at most one GET, and the cache is never
  invalidated: it is unchanged, or holds the rows just fetched. When the data does not load,
  the response is \<open>success = false\<close> with the message of the failed read, and the cache is
  unchanged.
\<close>

theorem C7_updateField_failure_amended:
  "(fst (client_getAllData net (c, w)) = Inr allData \<and>
    ((\<forall>row \<in> set allData. \<not> findRowMatch (config c) (op_identifier params) row)
     \<or> field params \<notin> set (headers (config c)))
    \<longrightarrow> updateField formatValue net params (c, w) =
          (\<lparr>success = False, data = None,
            error = Some (if (\<forall>row \<in> set allData.
                                \<not> findRowMatch (config c) (op_identifier params) row)
                          then ''Row with identifier '' @ idText (op_identifier params) @
                               '' not found''
                          else ''Field '' @ field params @ '' not found in headers''),
            message = None, timestamp = None\<rparr>,
           snd (client_getAllData net (c, w)))
        \<and> (cache (fst (snd (client_getAllData net (c, w)))) = cache c
           \<or> cache (fst (snd (client_getAllData net (c, w)))) =
               (cache c)(''all_data'' \<mapsto>
                  \<lparr>c_data = allData,
                   c_timestamp = clock (snd (snd (client_getAllData net (c, w))))\<rparr>)))
   \<and> (fst (client_getAllData net (c, w)) = Inl e
      \<longrightarrow> updateField formatValue net params (c, w) =
            (\<lparr>success = False, data = None, error = Some e, message = None, timestamp = None\<rparr>,
             snd (client_getAllData net (c, w)))
          \<and> cache (fst (snd (client_getAllData net (c, w)))) = cache c)
   \<and> (sent (snd (snd (client_getAllData net (c, w)))) = sent w
      \<or> (\<exists>rq. sent (snd (snd (client_getAllData net (c, w)))) = sent w @ [rq]
               \<and> http_method rq = ''GET'' \<and> body rq = None))"
proof (intro conjI impI)
  assume h: "fst (client_getAllData net (c, w)) = Inr allData \<and>
    ((\<forall>row \<in> set allData. \<not> findRowMatch (config c) (op_identifier params) row)
     \<or> field params \<notin> set (headers (config c)))"
  then have l: "fst (client_getAllData net (c, w)) = Inr allData" by simp
  show "updateField formatValue net params (c, w) =
          (\<lparr>success = False, data = None,
            error = Some (if (\<forall>row \<in> set allData.
                                \<not> findRowMatch (config c) (op_identifier params) row)
                          then ''Row with identifier '' @ idText (op_identifier params) @
                               '' not found''
                          else ''Field '' @ field params @ '' not found in headers''),
            message = None, timestamp = None\<rparr>,
           snd (client_getAllData net (c, w)))"
  proof (cases "\<forall>row \<in> set allData. \<not> findRowMatch (config c) (op_identifier params) row")
    case True
    then show ?thesis
      using updateField_no_row[of net "(c, w)" allData params formatValue] l
      by (simp add: failure_def)
  next
    case False
    then have "field params \<notin> set (headers (config c))" using h by blast
    then show ?thesis
      using updateField_no_field[of net "(c, w)" allData params formatValue] l False
      by (simp add: failure_def)
  qed
  show "cache (fst (snd (client_getAllData net (c, w)))) = cache c
           \<or> cache (fst (snd (client_getAllData net (c, w)))) =
               (cache c)(''all_data'' \<mapsto>
                  \<lparr>c_data = allData,
                   c_timestamp = clock (snd (snd (client_getAllData net (c, w))))\<rparr>)"
    using client_getAllData_cache[of net c w] l by simp
next
  assume l: "fst (client_getAllData net (c, w)) = Inl e"
  show "updateField formatValue net params (c, w) =
            (\<lparr>success = False, data = None, error = Some e, message = None, timestamp = None\<rparr>,
             snd (client_getAllData net (c, w)))"
    using updateField_load_failed[OF l] by (simp add: failure_def)
  show "cache (fst (snd (client_getAllData net (c, w)))) = cache c"
    using client_getAllData_cache[of net c w] l by simp
next
  show "sent (snd (snd (client_getAllData net (c, w)))) = sent w
      \<or> (\<exists>rq. sent (snd (snd (client_getAllData net (c, w)))) = sent w @ [rq]
               \<and> http_method rq = ''GET'' \<and> body rq = None)"
    by (rule client_getAllData_sent)
qed

theorem C7_updateField_failure_amended_witness:
  "fst (client_getAllData sheetNetwork (exampleClient, startWorld)) =
     Inr (transformRawDataToRows exampleConfig exampleSheet)
   \<and> field missingFieldUpdate \<notin> set (headers (config exampleClient))
   \<and> fst (updateField noFormat sheetNetwork missingFieldUpdate (exampleClient, startWorld)) =
       \<lparr>success = False, data = None, error = Some ''Field Age not found in headers'',
        message = None, timestamp = None\<rparr>
   \<and> fst (client_getAllData offlineNetwork (exampleClient, startWorld)) =
       Inl ''API request failed: Failed to fetch''
   \<and> fst (updateField noFormat offlineNetwork missingRowUpdate (exampleClient, startWorld)) =
       \<lparr>success = False, data = None, error = Some ''API request failed: Failed to fetch'',
        message = None, timestamp = None\<rparr>"
proof -
  have l: "fst (client_getAllData sheetNetwork (exampleClient, startWorld)) =
     Inr (transformRawDataToRows exampleConfig exampleSheet)"
    by (simp add: example_load)
  have f: "field missingFieldUpdate \<notin> set (headers (config exampleClient))"
    by (simp add: missingFieldUpdate_def exampleClient_def exampleConfig_def)
  have b: "\<not> (\<forall>row \<in> set (transformRawDataToRows exampleConfig exampleSheet).
        \<not> findRowMatch (config exampleClient) (op_identifier missingFieldUpdate) row)"
    using example_has_Bob by (simp add: exampleClient_def missingFieldUpdate_def)
  have o: "fst (client_getAllData offlineNetwork (exampleClient, startWorld)) =
       Inl ''API request failed: Failed to fetch''"
    by (simp add: offline_load)
  have n: "field missingFieldUpdate = ''Age''" by (simp add: missingFieldUpdate_def)
  show ?thesis
    using l f b o
      C7_updateField_failure_amended[where net = sheetNetwork and c = exampleClient
        and w = startWorld and allData = "transformRawDataToRows exampleConfig exampleSheet"
        and params = missingFieldUpdate and formatValue = noFormat]
      C7_updateField_failure_amended[where net = offlineNetwork and c = exampleClient
        and w = startWorld and params = missingRowUpdate
        and e = "''API request failed: Failed to fetch''" and formatValue = noFormat]
    by (simp add: n)
qed


section \<open>Reading all data and single rows through SheetApi\<close>

text \<open>
  Claim C8. \<open>SheetApi.getAllData\<close> never rejects: whatever the client call does, it resolves
  to a response that carries a timestamp. A successful response holds a non-empty list of
  rows; a failed one holds a non-empty error message; and when the client call throws or
  returns no rows the response is a failure without data.
\<close>

theorem C8_sheetApi_getAllData_never_rejects:
  "\<exists>resp. fst (sheetApi_getAllData net cw) = Inr resp
      \<and> timestamp resp \<noteq> None
      \<and> (success resp \<longrightarrow> (\<exists>rows. data resp = Some rows \<and> rows \<noteq> []))
      \<and> (\<not> success resp \<longrightarrow> (\<exists>e. error resp = Some e \<and> e \<noteq> []))
      \<and> ((case fst (client_getAllData net cw) of Inl e \<Rightarrow> True | Inr rows \<Rightarrow> rows = [])
            \<longrightarrow> \<not> success resp \<and> data resp = None)"
  by (cases "fst (client_getAllData net cw)") (simp_all add: sheetApi_getAllData_def Let_def)

theorem C8_sheetApi_getAllData_never_rejects_witness:
  "(\<exists>resp. fst (sheetApi_getAllData sheetNetwork (exampleClient, startWorld)) = Inr resp
      \<and> success resp \<and> timestamp resp = Some 1000120
      \<and> (\<exists>rows. data resp = Some rows \<and> rows \<noteq> []))
   \<and> (\<exists>resp. fst (sheetApi_getAllData offlineNetwork (exampleClient, startWorld)) = Inr resp
      \<and> \<not> success resp \<and> timestamp resp = Some 1000030
      \<and> error resp = Some ''Google Sheets API Error: API request failed: Failed to fetch'')"
proof -
  have r: "transformRawDataToRows exampleConfig exampleSheet \<noteq> []" by (simp add: exampleRows)
  show ?thesis
    using C8_sheetApi_getAllData_never_rejects[of sheetNetwork "(exampleClient, startWorld)"]
      C8_sheetApi_getAllData_never_rejects[of offlineNetwork "(exampleClient, startWorld)"] r
    by (simp add: sheetApi_getAllData_def Let_def example_load offline_load)
qed

lemma firstHeaderKey_Cons: "headers cfg = h # hs \<Longrightarrow> firstHeaderKey cfg = h"
  by (simp add: firstHeaderKey_def)

lemma firstHeaderKey_Nil: "headers cfg = [] \<Longrightarrow> firstHeaderKey cfg = ''undefined''"
  by (simp add: firstHeaderKey_def)

lemma find_first_iff:
  "find P xs = Some x \<longleftrightarrow> (\<exists>i < length xs. xs ! i = x \<and> P x \<and> (\<forall>j < i. \<not> P (xs ! j)))"
  by (auto simp: find_Some_iff)

lemma getRowById_load_failed:
  "fst (client_getAllData net cw) = Inl e \<Longrightarrow>
   fst (getRowById net ident cw) = Inl e \<and>
   (\<exists>resp. fst (sheetApi_getRow net ident cw) = Inr resp \<and> \<not> success resp \<and> error resp = Some e)"
  by (simp add: getRowById_def sheetApi_getRow_def Let_def)

text \<open>
  What \<open>getRowById\<close> and \<open>SheetApi.getRow\<close> do when at least one header \<open>h\<close> is configured:
  the result is the first row of the current data whose \<open>_id\<close> equals the identifier or whose
  value under \<open>h\<close> equals the identifier, and null when no row matches; \<open>getRow\<close> resolves
  to a response with \<open>success = true\<close> carrying that row or null.
\<close>

lemma getRowById_first_match:
  assumes "fst (client_getAllData net (c, w)) = Inr allData"
      and "headers (config c) = h # hs"
  shows "\<exists>res resp.
           fst (getRowById net ident (c, w)) = Inr res
         \<and> (\<forall>row. res = Some row \<longleftrightarrow>
               (\<exists>i < length allData. allData ! i = row
                  \<and> (getProp row ''_id'' = idValue ident \<or> getProp row h = idValue ident)
                  \<and> (\<forall>j < i. \<not> (getProp (allData ! j) ''_id'' = idValue ident
                                 \<or> getProp (allData ! j) h = idValue ident))))
         \<and> (res = None \<longleftrightarrow>
               (\<forall>row \<in> set allData.
                  \<not> (getProp row ''_id'' = idValue ident \<or> getProp row h = idValue ident)))
         \<and> fst (sheetApi_getRow net ident (c, w)) = Inr resp
         \<and> success resp \<and> data resp = Some res"
proof -
  let ?P = "\<lambda>row. getProp row ''_id'' = idValue ident \<or> getProp row h = idValue ident"
  have P: "getRowByIdMatch (config c) ident = ?P"
    using assms(2) by (simp add: getRowByIdMatch_def firstHeaderKey_Cons fun_eq_iff)
  have r: "fst (getRowById net ident (c, w)) = Inr (find ?P allData)"
    using assms(1) P by (simp add: getRowById_def Let_def)
  have a: "\<forall>row. find ?P allData = Some row \<longleftrightarrow>
               (\<exists>i < length allData. allData ! i = row \<and> ?P row \<and> (\<forall>j < i. \<not> ?P (allData ! j)))"
    by (simp only: find_first_iff) simp
  have b: "find ?P allData = None \<longleftrightarrow> (\<forall>row \<in> set allData. \<not> ?P row)"
    by (simp only: find_None_iff) blast
  have g: "fst (sheetApi_getRow net ident (c, w)) =
             Inr \<lparr>success = True, data = Some (find ?P allData), error = None,
                  message = Some (if find ?P allData \<noteq> None then ''Row found''
                                  else ''Row not found''),
                  timestamp = Some (clock (snd (snd (getRowById net ident (c, w)))))\<rparr>"
    using r by (simp add: sheetApi_getRow_def Let_def)
  show ?thesis
    apply (rule exI[of _ "find ?P allData"])
    apply (rule exI[of _ "\<lparr>success = True, data = Some (find ?P allData), error = None,
                  message = Some (if find ?P allData \<noteq> None then ''Row found''
                                  else ''Row not found''),
                  timestamp = Some (clock (snd (snd (getRowById net ident (c, w)))))\<rparr>"])
    using r a b g by simp
qed

lemma undefinedColumnRows:
  "transformRawDataToRows defaultConfig undefinedColumnSheet =
     [[(''_id'', JStr ''7''), (''_rowIndex'', JNum 1), (''id'', JStr ''7''),
       (''undefined'', JStr ''x'')]]"
proof -
  have t: "trim ''7'' = ''7''" "trim ''x'' = ''x''" by code_simp+
  have l: "toLowerCase ''7'' = ''7''" "toLowerCase ''x'' = ''x''" "toLowerCase ''id'' = ''id''"
      "toLowerCase ''undefined'' = ''undefined''"
    by code_simp+
  have n: "\<not> str_includes ''id'' ''done''" "\<not> str_includes ''id'' ''completed''"
      "\<not> str_includes ''id'' ''finished''" "\<not> str_includes ''id'' ''active''"
      "\<not> str_includes ''id'' ''visited''"
      "\<not> str_includes ''undefined'' ''done''" "\<not> str_includes ''undefined'' ''completed''"
      "\<not> str_includes ''undefined'' ''finished''" "\<not> str_includes ''undefined'' ''active''"
      "\<not> str_includes ''undefined'' ''visited''"
    by code_simp+
  show ?thesis
    by (simp add: defaultConfig_def undefinedColumnSheet_def row_eval t l n toDecimal_examples)
qed

lemma undefinedColumn_load:
  "fst (client_getAllData undefinedColumnNetwork (defaultClient, startWorld)) =
     Inr (transformRawDataToRows defaultConfig undefinedColumnSheet)"
proof -
  have "undefinedColumnSheet \<noteq> []" by (simp add: undefinedColumnSheet_def)
  then show ?thesis
    by (simp add: client_getAllData_def Let_def makeRequest_def undefinedColumnNetwork_def
        defaultClient_def startWorld_def CACHE_TTL_def)
qed

text \<open>
  Claim C6. \<open>getRowById\<close> returns the first row whose \<open>_id\<close> equals the identifier or whose
  value in the first configured header equals the identifier, and null when no row matches.
  With the default configuration no header is configured, and \<open>config.headers[0]\<close> is
  \<open>undefined\<close>: the look-up reads the property named \<open>undefined\<close>. On a sheet with a column of
  that name the identifier \<open>x\<close> equals the \<open>_id\<close> of no row, yet \<open>getRowById\<close> returns the row
  whose cell in that column is \<open>x\<close>, and \<open>getRow\<close> reports it as found.
\<close>

theorem C6_undefined_header_match:
  "headers (config defaultClient) = []
   \<and> fst (client_getAllData undefinedColumnNetwork (defaultClient, startWorld)) =
       Inr [[(''_id'', JStr ''7''), (''_rowIndex'', JNum 1), (''id'', JStr ''7''),
             (''undefined'', JStr ''x'')]]
   \<and> fst (getRowById undefinedColumnNetwork (IdStr ''x'') (defaultClient, startWorld)) =
       Inr (Some [(''_id'', JStr ''7''), (''_rowIndex'', JNum 1), (''id'', JStr ''7''),
                  (''undefined'', JStr ''x'')])
   \<and> fst (sheetApi_getRow undefinedColumnNetwork (IdStr ''x'') (defaultClient, startWorld)) =
       Inr \<lparr>success = True,
            data = Some (Some [(''_id'', JStr ''7''), (''_rowIndex'', JNum 1), (''id'', JStr ''7''),
                               (''undefined'', JStr ''x'')]),
            error = None, message = Some ''Row found'', timestamp = Some 1000120\<rparr>"
proof -
  have h: "headers (config defaultClient) = []"
    by (simp add: defaultClient_def defaultConfig_def)
  have l: "fst (client_getAllData undefinedColumnNetwork (defaultClient, startWorld)) =
       Inr [[(''_id'', JStr ''7''), (''_rowIndex'', JNum 1), (''id'', JStr ''7''),
             (''undefined'', JStr ''x'')]]"
    by (simp only: undefinedColumn_load undefinedColumnRows)
  have k: "firstHeaderKey (config defaultClient) = ''undefined''"
    using h by (rule firstHeaderKey_Nil)
  have g: "fst (getRowById undefinedColumnNetwork (IdStr ''x'') (defaultClient, startWorld)) =
       Inr (Some [(''_id'', JStr ''7''), (''_rowIndex'', JNum 1), (''id'', JStr ''7''),
                  (''undefined'', JStr ''x'')])"
    by (simp add: getRowById_def Let_def l getRowByIdMatch_def k getProp_def)
  have c: "clock (snd (snd (getRowById undefinedColumnNetwork (IdStr ''x'')
                              (defaultClient, startWorld)))) = 1000120"
    by (simp add: getRowById_def Let_def l client_getAllData_def makeRequest_def
        undefinedColumnNetwork_def defaultClient_def startWorld_def CACHE_TTL_def
        split: sum.splits)
  have r: "fst (sheetApi_getRow undefinedColumnNetwork (IdStr ''x'') (defaultClient, startWorld)) =
       Inr \<lparr>success = True,
            data = Some (Some [(''_id'', JStr ''7''), (''_rowIndex'', JNum 1), (''id'', JStr ''7''),
                               (''undefined'', JStr ''x'')]),
            error = None, message = Some ''Row found'', timestamp = Some 1000120\<rparr>"
    by (simp add: sheetApi_getRow_def Let_def g c)
  show ?thesis using h l g r by simp
qed

section \<open>The manager's cache and pending requests\<close>

lemma cacheKey_cases: "cacheKey ep = ''getAllData'' \<or> cacheKey ep = ''quickTest''"
  by (cases ep) simp_all

lemma cacheKey_getAllData_iff: "''getAllData'' = cacheKey ep \<longleftrightarrow> ep = GetAllData"
  by (cases ep) simp_all

lemma getCachedResponse_cache:
  "mcache (snd (getCachedResponse key customTtl now m)) k = mcache m k \<or>
   (k = key \<and> mcache (snd (getCachedResponse key customTtl now m)) k = None \<and>
    (\<exists>c. mcache m k = Some c \<and>
          now - cr_timestamp c >
            (case customTtl of None \<Rightarrow> cr_ttl c | Some t \<Rightarrow> if t = 0 then cr_ttl c else t)))"
  by (auto simp: getCachedResponse_def Let_def split: option.splits)

lemma publicCall_cache:
  "mcache (publicCall ep customTtl cid now m) k =
   mcache (snd (getCachedResponse (cacheKey ep) customTtl now m)) k"
  by (simp add: publicCall_def Let_def split: option.splits)

lemma enforceRateLimit_resume_cache: "mcache (enforceRateLimit_resume cid now m) = mcache m"
  by (simp add: enforceRateLimit_resume_def split: option.splits call_state.splits)

lemma makeNewRequest_cache: "mcache (makeNewRequest cid now m) = mcache m"
  by (simp add: makeNewRequest_def Let_def split: option.splits call_state.splits)

lemma requestSettled_cache:
  "mcache (requestSettled p s now m) k = mcache m k \<or>
   (\<exists>ep d ttl. inflight m p = Some ep \<and> k = cacheKey ep \<and>
       mcache (requestSettled p s now m) k =
         Some \<lparr>cr_data = d, cr_timestamp = now, cr_ttl = ttl\<rparr> \<and>
       (ep = GetAllData \<longrightarrow> (\<exists>r. d = ApiData r \<and> success r)))"
  by (auto simp: requestSettled_def setCacheEntry_def Let_def
      split: option.splits endpoint.splits settlement.splits)

lemma cleanup_cache:
  "mcache (cleanup now m) k = mcache m k \<or>
   (mcache (cleanup now m) k = None \<and>
    (\<exists>c. mcache m k = Some c \<and> now - cr_timestamp c > cr_ttl c))"
  by (auto simp: cleanup_def split: option.splits)

text \<open>
  Every transition leaves a cache slot as it was, empties it, or (when a request settles)
  fills the slot of the request's own key; under the key of \<open>getAllData\<close> only a successful
  response is stored.
\<close>

lemma step_cache_cases:
  "mcache (step now e m) k = mcache m k
   \<or> mcache (step now e m) k = None
   \<or> (\<exists>p s ep d ttl. e = Settle p s \<and> inflight m p = Some ep \<and> k = cacheKey ep \<and>
        mcache (step now e m) k = Some \<lparr>cr_data = d, cr_timestamp = now, cr_ttl = ttl\<rparr> \<and>
        (ep = GetAllData \<longrightarrow> (\<exists>r. d = ApiData r \<and> success r)))"
proof (cases e)
  case (CallGetAllData cid)
  then show ?thesis
    using getCachedResponse_cache[of "''getAllData''" None now m k]
    by (auto simp: apiManager_getAllData_def publicCall_cache)
next
  case (CallQuickConnectionTest cid)
  then show ?thesis
    using getCachedResponse_cache[of "''quickTest''" "Some 10000" now m k]
    by (auto simp: quickConnectionTest_def publicCall_cache)
next
  case ClearCache
  then show ?thesis by (simp add: clearCache_def)
next
  case (ClearCacheEntry key)
  then show ?thesis by (simp add: clearCacheEntry_def)
next
  case Cleanup
  then show ?thesis using cleanup_cache[of now m k] by auto
next
  case (TimerFired cid)
  then show ?thesis by (simp add: enforceRateLimit_resume_cache)
next
  case (Resume cid)
  then show ?thesis by (simp add: makeNewRequest_cache)
next
  case (Settle p s)
  then show ?thesis using requestSettled_cache[of p s now m k] by auto
qed

lemma step_getAllDataEntrySuccessful:
  "getAllDataEntrySuccessful m \<Longrightarrow> getAllDataEntrySuccessful (step now e m)"
  using step_cache_cases[of now e m "''getAllData''"]
  by (auto simp: getAllDataEntrySuccessful_def cacheKey_getAllData_iff split: option.splits)

lemma run_getAllDataEntrySuccessful:
  "getAllDataEntrySuccessful m \<Longrightarrow> getAllDataEntrySuccessful (run evs m)"
  by (induction evs arbitrary: m) (simp_all add: step_getAllDataEntrySuccessful)

lemma step_cache_keys:
  assumes d: "dom (mcache m) \<subseteq> {''getAllData'', ''quickTest''}"
  shows "dom (mcache (step now e m)) \<subseteq> {''getAllData'', ''quickTest''}"
proof
  fix k
  assume k: "k \<in> dom (mcache (step now e m))"
  from k obtain y where y: "mcache (step now e m) k = Some y" by auto
  from step_cache_cases[of now e m k]
  consider "mcache (step now e m) k = mcache m k" | "mcache (step now e m) k = None"
    | ep where "k = cacheKey ep" by auto
  then show "k \<in> {''getAllData'', ''quickTest''}"
  proof cases
    case 1
    then have "mcache m k = Some y" using y by simp
    then have "k \<in> dom (mcache m)" by (rule domI)
    then show ?thesis using d by blast
  next
    case 2
    then show ?thesis using y by simp
  next
    case 3
    then show ?thesis using cacheKey_cases[of ep] by auto
  qed
qed

lemma run_cache_keys:
  "dom (mcache m) \<subseteq> {''getAllData'', ''quickTest''} \<Longrightarrow>
   dom (mcache (run evs m)) \<subseteq> {''getAllData'', ''quickTest''}"
  by (induction evs arbitrary: m) (simp_all add: step_cache_keys)

lemma step_entry_leaves:
  assumes before: "mcache m k = Some c" and after: "mcache (step now e m) k = None"
  shows "e = ClearCache \<or> e = ClearCacheEntry k
     \<or> (e = Cleanup \<and> now - cr_timestamp c > cr_ttl c)
     \<or> (\<exists>cid. e = CallGetAllData cid \<and> k = ''getAllData'' \<and> now - cr_timestamp c > cr_ttl c)
     \<or> (\<exists>cid. e = CallQuickConnectionTest cid \<and> k = ''quickTest''
              \<and> now - cr_timestamp c > 10000)"
proof (cases e)
  case (CallGetAllData cid)
  then show ?thesis
    using before after getCachedResponse_cache[of "''getAllData''" None now m k]
    by (auto simp: apiManager_getAllData_def publicCall_cache split: if_splits)
next
  case (CallQuickConnectionTest cid)
  then show ?thesis
    using before after getCachedResponse_cache[of "''quickTest''" "Some 10000" now m k]
    by (auto simp: quickConnectionTest_def publicCall_cache split: if_splits)
next
  case ClearCache
  then show ?thesis by simp
next
  case (ClearCacheEntry key)
  then show ?thesis using before after by (auto simp: clearCacheEntry_def split: if_splits)
next
  case Cleanup
  then show ?thesis using before after cleanup_cache[of now m k] by auto
next
  case (TimerFired cid)
  then show ?thesis using before after by (simp add: enforceRateLimit_resume_cache)
next
  case (Resume cid)
  then show ?thesis using before after by (simp add: makeNewRequest_cache)
next
  case (Settle p s)
  then show ?thesis using before after requestSettled_cache[of p s now m k] by auto
qed

lemma failed_not_cached:
  "\<not> success r \<Longrightarrow>
   mcache (requestSettled p (Resolved r) now m) ''getAllData'' = mcache m ''getAllData''"
  by (auto simp: requestSettled_def setCacheEntry_def Let_def split: option.splits endpoint.splits)

lemma rejected_not_cached:
  "mcache (requestSettled p (Rejected e) now m) ''getAllData'' = mcache m ''getAllData''"
  by (auto simp: requestSettled_def setCacheEntry_def Let_def split: option.splits endpoint.splits)

lemma read_after_store:
  "customTtl \<noteq> Some 0 \<Longrightarrow>
   getCachedResponse key customTtl now (setCacheEntry key d ttl t m) =
     (if now - t \<le> (case customTtl of None \<Rightarrow> ttl | Some ct \<Rightarrow> ct)
      then (Some d, setCacheEntry key d ttl t m)
      else (None, clearCacheEntry key (setCacheEntry key d ttl t m)))"
  by (auto simp: getCachedResponse_def setCacheEntry_def clearCacheEntry_def Let_def
      split: option.splits)

lemma callerTtl_nonzero: "callerTtl ep \<noteq> Some 0"
  by (cases ep) simp_all

lemma step_callEvent:
  "calls m cid = None \<Longrightarrow> step now (callEvent ep cid) m = publicCall ep (callerTtl ep) cid now m"
  by (cases ep) (simp_all add: apiManager_getAllData_def quickConnectionTest_def)

lemma getCachedResponse_rest:
  "pendingRequests (snd (getCachedResponse key customTtl now m)) = pendingRequests m"
  "lastRequestTime (snd (getCachedResponse key customTtl now m)) = lastRequestTime m"
  "calls (snd (getCachedResponse key customTtl now m)) = calls m"
  "inflight (snd (getCachedResponse key customTtl now m)) = inflight m"
  "nextPromise (snd (getCachedResponse key customTtl now m)) = nextPromise m"
  by (simp_all add: getCachedResponse_def Let_def split: option.splits)

lemma getCachedResponse_miss_slot:
  assumes "fst (getCachedResponse key customTtl now m) = None"
  shows "mcache (snd (getCachedResponse key customTtl now m)) key = None"
proof (cases "mcache m key")
  case None
  then show ?thesis by (simp add: getCachedResponse_def)
next
  case (Some cached)
  then show ?thesis using assms
    by (cases "now - cr_timestamp cached >
                (case customTtl of None \<Rightarrow> cr_ttl cached
                 | Some t \<Rightarrow> if t = 0 then cr_ttl cached else t)")
       (simp_all add: getCachedResponse_def Let_def)
qed

lemma expired_read_miss:
  assumes "mcache m (cacheKey ep) = Some entry"
      and "now - cr_timestamp entry >
             (case callerTtl ep of None \<Rightarrow> cr_ttl entry | Some ct \<Rightarrow> ct)"
  shows "fst (getCachedResponse (cacheKey ep) (callerTtl ep) now m) = None"
  using assms by (cases ep) (simp_all add: getCachedResponse_def Let_def)

text \<open>A call whose cache read finds nothing and that finds no pending request.\<close>

lemma miss_creates_request:
  assumes miss: "fst (getCachedResponse (cacheKey ep) (callerTtl ep) now m) = None"
      and nopending: "pendingRequests m (cacheKey ep) = None"
      and fresh: "calls m cid = None"
  shows "mcache (run [(now, callEvent ep cid), (t1, TimerFired cid), (t2, Resume cid)] m)
           (cacheKey ep) = None
       \<and> inflight (run [(now, callEvent ep cid), (t1, TimerFired cid), (t2, Resume cid)] m)
           (nextPromise m) = Some ep
       \<and> nextPromise (run [(now, callEvent ep cid), (t1, TimerFired cid), (t2, Resume cid)] m)
           = Suc (nextPromise m)
       \<and> calls (run [(now, callEvent ep cid), (t1, TimerFired cid), (t2, Resume cid)] m) cid
           = Some (AwaitingOwn ep (nextPromise m))"
proof -
  let ?m1 = "snd (getCachedResponse (cacheKey ep) (callerTtl ep) now m)"
  have slot: "mcache ?m1 (cacheKey ep) = None"
    using miss by (rule getCachedResponse_miss_slot)
  have pc: "step now (callEvent ep cid) m =
     (if now - lastRequestTime m < 1000
      then ?m1\<lparr>calls := (calls m)(cid \<mapsto> RateLimitWait ep)\<rparr>
      else ?m1\<lparr>lastRequestTime := now, calls := (calls m)(cid \<mapsto> RateLimitPassed ep)\<rparr>)"
    using miss nopending
    by (simp add: step_callEvent[OF fresh] publicCall_def Let_def getCachedResponse_rest
        MIN_REQUEST_INTERVAL_def)
  show ?thesis
    using slot
    by (cases "now - lastRequestTime m < 1000")
       (simp_all add: pc enforceRateLimit_resume_def makeNewRequest_def Let_def
          getCachedResponse_rest)
qed

text \<open>A call whose cache read finds nothing and that finds a pending request.\<close>

lemma miss_awaits_pending:
  assumes miss: "fst (getCachedResponse (cacheKey ep) (callerTtl ep) now m) = None"
      and pending: "pendingRequests m (cacheKey ep) = Some pr"
      and fresh: "calls m cid = None"
  shows "mcache (step now (callEvent ep cid) m) (cacheKey ep) = None
       \<and> calls (step now (callEvent ep cid) m) cid = Some (AwaitingPending ep (promise pr))
       \<and> nextPromise (step now (callEvent ep cid) m) = nextPromise m
       \<and> inflight (step now (callEvent ep cid) m) = inflight m
       \<and> (inflight m (promise pr) = Some ep' \<longrightarrow>
            calls (step t1 (Settle (promise pr) out) (step now (callEvent ep cid) m)) cid
              = Some (promiseResult ep' out))"
proof -
  let ?m1 = "snd (getCachedResponse (cacheKey ep) (callerTtl ep) now m)"
  have slot: "mcache ?m1 (cacheKey ep) = None"
    using miss by (rule getCachedResponse_miss_slot)
  have pc: "step now (callEvent ep cid) m =
              ?m1\<lparr>calls := (calls m)(cid \<mapsto> AwaitingPending ep (promise pr))\<rparr>"
    using miss pending
    by (simp add: step_callEvent[OF fresh] publicCall_def Let_def getCachedResponse_rest)
  have settle: "inflight m (promise pr) = Some ep' \<longrightarrow>
            calls (step t1 (Settle (promise pr) out) (step now (callEvent ep cid) m)) cid
              = Some (promiseResult ep' out)"
    by (cases ep'; cases out)
       (simp_all add: pc requestSettled_def Let_def getCachedResponse_rest setCacheEntry_def)
  show ?thesis
    using slot settle by (simp add: pc getCachedResponse_rest)
qed

text \<open>A call whose cache read finds a response returns it and creates no request.\<close>

lemma hit_returns_cached:
  assumes "fst (getCachedResponse (cacheKey ep) (callerTtl ep) now m) = Some d"
      and "calls m cid = None"
  shows "calls (step now (callEvent ep cid) m) cid = Some (Returned d)
       \<and> nextPromise (step now (callEvent ep cid) m) = nextPromise m"
  using assms(1)
  by (simp add: step_callEvent[OF assms(2)] publicCall_def Let_def getCachedResponse_rest)

lemma failed_settle_state:
  assumes "inflight m p = Some GetAllData" and "\<not> success r"
  shows "pendingRequests (requestSettled p (Resolved r) now m) ''getAllData'' = None
       \<and> mcache (requestSettled p (Resolved r) now m) = mcache m
       \<and> nextPromise (requestSettled p (Resolved r) now m) = nextPromise m"
  using assms by (simp add: requestSettled_def Let_def)

lemma refetch_after_failure:
  assumes "inflight m p = Some GetAllData" and "\<not> success r"
      and "fst (getCachedResponse ''getAllData'' None t0 (requestSettled p (Resolved r) now m)) = None"
      and "calls (requestSettled p (Resolved r) now m) cid = None"
  shows "inflight (run [(t0, CallGetAllData cid), (t1, TimerFired cid), (t2, Resume cid)]
                    (requestSettled p (Resolved r) now m)) (nextPromise m) = Some GetAllData"
  using miss_creates_request[of GetAllData t0 "requestSettled p (Resolved r) now m" cid t1 t2]
    failed_settle_state[OF assms(1,2), of now] assms(3,4)
  by simp

text \<open>
  What a call of \<open>SheetApi.getAllData\<close> sends: nothing while the client's own cache entry is
  younger than 30 seconds, and one GET otherwise.
\<close>

lemma sheetApi_world: "snd (sheetApi_getAllData net cw) = snd (client_getAllData net cw)"
  by (simp add: sheetApi_getAllData_def Let_def split: sum.splits)

lemma sheetApi_cached:
  assumes "cache c ''all_data'' = Some held" and "clock w - c_timestamp held < 30000"
  shows "sent (snd (snd (sheetApi_getAllData net (c, w)))) = sent w
       \<and> (\<exists>resp. fst (sheetApi_getAllData net (c, w)) = Inr resp
                 \<and> (c_data held = [] \<longrightarrow> \<not> success resp)
                 \<and> (c_data held \<noteq> [] \<longrightarrow> success resp \<and> data resp = Some (c_data held)))"
  using assms
  by (simp add: sheetApi_getAllData_def client_getAllData_def Let_def CACHE_TTL_def)

lemma sheetApi_uncached:
  assumes "cache c ''all_data'' = None \<or>
           (\<exists>held. cache c ''all_data'' = Some held \<and> \<not> clock w - c_timestamp held < 30000)"
  shows "\<exists>rq. sent (snd (snd (sheetApi_getAllData net (c, w)))) = sent w @ [rq]
              \<and> http_method rq = ''GET'' \<and> body rq = None"
  using assms
  by (auto simp: sheetApi_world client_getAllData_def Let_def CACHE_TTL_def makeRequest_world
      split: option.splits sum.splits)

lemmas manager_eval =
  apiManager_getAllData_def quickConnectionTest_def publicCall_def getCachedResponse_def
  setCacheEntry_def clearCache_def clearCacheEntry_def cleanup_def enforceRateLimit_resume_def
  makeNewRequest_def requestSettled_def promiseResult_def performQuickTest_def newApiManager_def
  MIN_REQUEST_INTERVAL_def DEFAULT_TTL_def Let_def

lemma okResponse_fields:
  "success okResponse" "data okResponse = Some (transformRawDataToRows exampleConfig exampleSheet)"
  "length (transformRawDataToRows exampleConfig exampleSheet) = 2"
  by (simp_all add: okResponse_def exampleRows)

lemma twoEndpoints_cache:
  "mcache (run twoEndpointsTrace newApiManager) ''getAllData'' =
     Some \<lparr>cr_data = ApiData okResponse, cr_timestamp = 1000500, cr_ttl = 30000\<rparr>"
  "mcache (run twoEndpointsTrace newApiManager) ''quickTest'' =
     Some \<lparr>cr_data = ConnData \<lparr>connected = True, conn_error = None, rowCount = Some 2\<rparr>,
           cr_timestamp = 1002100, cr_ttl = 10000\<rparr>"
  "pendingRequests (run twoEndpointsTrace newApiManager) ''getAllData'' = None"
  "calls (run twoEndpointsTrace newApiManager) 7 = None"
  "nextPromise (run twoEndpointsTrace newApiManager) = 2"
  by (simp_all add: twoEndpointsTrace_def manager_eval okResponse_fields)



lemma exampleConfig_fields:
  "apiBaseUrl exampleConfig = ''https://api.example/v1''" "sheetId exampleConfig = ''s1''"
  "headers exampleConfig = [''Name'', ''Done'']"
  by (simp_all add: exampleConfig_def)

lemma headerOnlyRows: "transformRawDataToRows exampleConfig headerOnlySheet = []"
  by (simp add: transformRawDataToRows_def headerOnlySheet_def)

lemma sheet_nonempty: "exampleSheet \<noteq> []" "headerOnlySheet \<noteq> []"
  by (simp_all add: exampleSheet_def headerOnlySheet_def)

lemmas linked_eval =
  completeCall_def atTime_def asSettlement_def sheetApi_getAllData_def client_getAllData_def
  makeRequest_def exampleClient_def startWorld_def CACHE_TTL_def exampleConfig_fields
  sheet_nonempty

lemma failedResponse_fields: "\<not> success failedResponse"
  by (simp add: failedResponse_def)

section \<open>Claims about the manager\<close>

text \<open>
  Claim C9, as stated: only successful responses are cached, so a failed data fetch is never
  replayed from the cache and the next call re-contacts the API. For a sheet with a header row
  and no data rows the first call of \<open>getAllData\<close> sends one GET and returns a failure; the
  next call finds nothing in the manager's cache and calls \<open>SheetApi.getAllData\<close> again, which
  the client answers from its own cache: the failure is returned again and no request is
  sent. And in \<open>failureAfterSuccessTrace\<close>, where a raced request fails after the other one has
  succeeded, the call after the failure is served the cached success and creates no request.
\<close>

theorem C9_failure_repeated_counterexample:
  "calls (fst (completeCall headerOnlyNetwork GetAllData 0
                 (newApiManager, exampleClient, startWorld))) 0
     = Some (Returned (ApiData \<lparr>success = False, data = None,
          error = Some ''No data found in the sheet. Please ensure your Google Sheet contains data and check your configuration.'',
          message = None, timestamp = Some 1000120\<rparr>))
   \<and> mcache (fst (completeCall headerOnlyNetwork GetAllData 0
                 (newApiManager, exampleClient, startWorld))) ''getAllData'' = None
   \<and> length (sent (snd (snd (completeCall headerOnlyNetwork GetAllData 0
                 (newApiManager, exampleClient, startWorld))))) = 1
   \<and> calls (fst (completeCall headerOnlyNetwork GetAllData 1
                 (completeCall headerOnlyNetwork GetAllData 0
                    (newApiManager, exampleClient, startWorld)))) 1
     = Some (Returned (ApiData \<lparr>success = False, data = None,
          error = Some ''No data found in the sheet. Please ensure your Google Sheet contains data and check your configuration.'',
          message = None, timestamp = Some 1001000\<rparr>))
   \<and> sent (snd (snd (completeCall headerOnlyNetwork GetAllData 1
                 (completeCall headerOnlyNetwork GetAllData 0
                    (newApiManager, exampleClient, startWorld)))))
     = sent (snd (snd (completeCall headerOnlyNetwork GetAllData 0
                    (newApiManager, exampleClient, startWorld))))
   \<and> calls (run failureAfterSuccessTrace newApiManager) 0
     = Some (Returned (ApiData failedResponse))
   \<and> calls (step 1002000 (CallGetAllData 2) (run failureAfterSuccessTrace newApiManager)) 2
     = Some (Returned (ApiData okResponse))
   \<and> nextPromise (step 1002000 (CallGetAllData 2) (run failureAfterSuccessTrace newApiManager))
     = nextPromise (run failureAfterSuccessTrace newApiManager)"
proof -
  have a: "calls (run failureAfterSuccessTrace newApiManager) 0
             = Some (Returned (ApiData failedResponse))
     \<and> calls (step 1002000 (CallGetAllData 2) (run failureAfterSuccessTrace newApiManager)) 2
             = Some (Returned (ApiData okResponse))
     \<and> nextPromise (step 1002000 (CallGetAllData 2) (run failureAfterSuccessTrace newApiManager))
             = nextPromise (run failureAfterSuccessTrace newApiManager)"
    by (simp add: failureAfterSuccessTrace_def manager_eval okResponse_fields
        failedResponse_fields)
  show ?thesis
    using a by (simp add: linked_eval manager_eval headerOnlyNetwork_def headerOnlyRows)
qed

text \<open>
  Claim C9, amended. In every state reached from a new manager, an entry under the key
  \<open>getAllData\<close> is a response with \<open>success = true\<close>, so a failed data fetch is never replayed
  from the manager's cache: settling a request with a failed response or a rejection leaves
  the slot as it was, a call that reads a cached response returns a successful one, and
  after a failed fetch a call that reads no cached response makes a fresh call of
  \<open>SheetApi.getAllData\<close>. That call sends a GET only when the client's own cache entry is
  absent or at least 30 seconds old; while the entry is younger the client answers from it
  without a request, and an empty cached row list is reported as a failure again.
\<close>

theorem C9_getAllData_caches_only_success_amended:
  "getAllDataEntrySuccessful (run evs newApiManager)
   \<and> (\<forall>cached. mcache (run evs newApiManager) ''getAllData'' = Some cached
         \<longrightarrow> (\<exists>r. cr_data cached = ApiData r \<and> success r))
   \<and> (\<forall>now d. fst (getCachedResponse ''getAllData'' None now (run evs newApiManager)) = Some d
         \<longrightarrow> (\<exists>r. d = ApiData r \<and> success r))
   \<and> (\<not> success r \<longrightarrow>
        mcache (requestSettled p (Resolved r) now m) ''getAllData'' = mcache m ''getAllData'')
   \<and> mcache (requestSettled p (Rejected e) now m) ''getAllData'' = mcache m ''getAllData''
   \<and> (calls (run evs newApiManager) cid' = None
        \<and> fst (getCachedResponse ''getAllData'' None t0' (run evs newApiManager)) = Some d'
      \<longrightarrow> calls (step t0' (CallGetAllData cid') (run evs newApiManager)) cid' = Some (Returned d')
          \<and> nextPromise (step t0' (CallGetAllData cid') (run evs newApiManager))
              = nextPromise (run evs newApiManager))
   \<and> (inflight m p = Some GetAllData \<and> \<not> success r
        \<and> fst (getCachedResponse ''getAllData'' None t0 (requestSettled p (Resolved r) now m)) = None
        \<and> calls (requestSettled p (Resolved r) now m) cid = None
      \<longrightarrow> inflight (run [(t0, CallGetAllData cid), (t1, TimerFired cid), (t2, Resume cid)]
                        (requestSettled p (Resolved r) now m)) (nextPromise m) = Some GetAllData)
   \<and> (cache c ''all_data'' = Some held \<and> clock w - c_timestamp held < 30000
      \<longrightarrow> sent (snd (snd (sheetApi_getAllData net (c, w)))) = sent w
          \<and> (\<exists>resp. fst (sheetApi_getAllData net (c, w)) = Inr resp
                    \<and> (c_data held = [] \<longrightarrow> \<not> success resp)
                    \<and> (c_data held \<noteq> [] \<longrightarrow> success resp \<and> data resp = Some (c_data held))))
   \<and> (cache c ''all_data'' = None
        \<or> (\<exists>held. cache c ''all_data'' = Some held \<and> \<not> clock w - c_timestamp held < 30000)
      \<longrightarrow> (\<exists>rq. sent (snd (snd (sheetApi_getAllData net (c, w)))) = sent w @ [rq]
                \<and> http_method rq = ''GET'' \<and> body rq = None))"
proof -
  have "getAllDataEntrySuccessful newApiManager"
    by (simp add: getAllDataEntrySuccessful_def newApiManager_def)
  then have inv: "getAllDataEntrySuccessful (run evs newApiManager)"
    by (rule run_getAllDataEntrySuccessful)
  have a: "\<forall>cached. mcache (run evs newApiManager) ''getAllData'' = Some cached
         \<longrightarrow> (\<exists>r. cr_data cached = ApiData r \<and> success r)"
  proof (intro allI impI)
    fix cached
    assume h: "mcache (run evs newApiManager) ''getAllData'' = Some cached"
    show "\<exists>r. cr_data cached = ApiData r \<and> success r"
      using inv h by (cases "cr_data cached") (simp_all add: getAllDataEntrySuccessful_def)
  qed
  have b: "\<forall>now d. fst (getCachedResponse ''getAllData'' None now (run evs newApiManager)) = Some d
         \<longrightarrow> (\<exists>r. d = ApiData r \<and> success r)"
    using a by (auto simp: getCachedResponse_def Let_def split: option.splits if_splits)
  have h: "calls (run evs newApiManager) cid' = None
        \<and> fst (getCachedResponse ''getAllData'' None t0' (run evs newApiManager)) = Some d'
      \<longrightarrow> calls (step t0' (CallGetAllData cid') (run evs newApiManager)) cid' = Some (Returned d')
          \<and> nextPromise (step t0' (CallGetAllData cid') (run evs newApiManager))
              = nextPromise (run evs newApiManager)"
    using hit_returns_cached[of GetAllData t0' "run evs newApiManager" d' cid'] by simp
  have f: "\<not> success r \<longrightarrow>
        mcache (requestSettled p (Resolved r) now m) ''getAllData'' = mcache m ''getAllData''"
    by (intro impI) (rule failed_not_cached)
  have g: "inflight m p = Some GetAllData \<and> \<not> success r
        \<and> fst (getCachedResponse ''getAllData'' None t0 (requestSettled p (Resolved r) now m)) = None
        \<and> calls (requestSettled p (Resolved r) now m) cid = None
      \<longrightarrow> inflight (run [(t0, CallGetAllData cid), (t1, TimerFired cid), (t2, Resume cid)]
                        (requestSettled p (Resolved r) now m)) (nextPromise m) = Some GetAllData"
    by (intro impI, elim conjE) (rule refetch_after_failure)
  have k: "cache c ''all_data'' = Some held \<and> clock w - c_timestamp held < 30000
      \<longrightarrow> sent (snd (snd (sheetApi_getAllData net (c, w)))) = sent w
          \<and> (\<exists>resp. fst (sheetApi_getAllData net (c, w)) = Inr resp
                    \<and> (c_data held = [] \<longrightarrow> \<not> success resp)
                    \<and> (c_data held \<noteq> [] \<longrightarrow> success resp \<and> data resp = Some (c_data held)))"
    using sheetApi_cached[of c held w net] by (intro impI, elim conjE) simp
  have u: "cache c ''all_data'' = None
        \<or> (\<exists>held. cache c ''all_data'' = Some held \<and> \<not> clock w - c_timestamp held < 30000)
      \<longrightarrow> (\<exists>rq. sent (snd (snd (sheetApi_getAllData net (c, w)))) = sent w @ [rq]
                \<and> http_method rq = ''GET'' \<and> body rq = None)"
    by (intro impI) (rule sheetApi_uncached)
  note facts = inv a b f rejected_not_cached[of p e now m] h g k u
  show ?thesis
    by (intro conjI) (rule facts)+
qed

theorem C9_getAllData_caches_only_success_amended_witness:
  "mcache (run twoEndpointsTrace newApiManager) ''getAllData'' =
     Some \<lparr>cr_data = ApiData okResponse, cr_timestamp = 1000500, cr_ttl = 30000\<rparr>
   \<and> success okResponse
   \<and> calls (step 1003000 (CallGetAllData 7) (run twoEndpointsTrace newApiManager)) 7
       = Some (Returned (ApiData okResponse))
   \<and> \<not> success failedResponse
   \<and> inflight (run [(1000000, CallGetAllData 0), (1000000, Resume 0)] newApiManager) 0
       = Some GetAllData
   \<and> mcache (requestSettled 0 (Resolved failedResponse) 1000500
               (run [(1000000, CallGetAllData 0), (1000000, Resume 0)] newApiManager))
        ''getAllData'' = None
   \<and> inflight (run [(1002000, CallGetAllData 1), (1002000, TimerFired 1), (1002000, Resume 1)]
                (requestSettled 0 (Resolved failedResponse) 1000500
                   (run [(1000000, CallGetAllData 0), (1000000, Resume 0)] newApiManager))) 1
       = Some GetAllData
   \<and> sent (snd (snd (sheetApi_getAllData headerOnlyNetwork
               (exampleClient\<lparr>cache := [''all_data'' \<mapsto> \<lparr>c_data = [], c_timestamp = 1000120\<rparr>]\<rparr>,
                \<lparr>clock = 1001000, sent = []\<rparr>)))) = []
   \<and> (\<exists>rq. sent (snd (snd (sheetApi_getAllData headerOnlyNetwork (exampleClient, startWorld))))
             = sent startWorld @ [rq] \<and> http_method rq = ''GET'' \<and> body rq = None)"
proof -
  let ?m = "run [(1000000, CallGetAllData 0), (1000000, Resume 0)] newApiManager"
  have f: "\<not> success failedResponse" by (rule failedResponse_fields)
  have e: "mcache ?m ''getAllData'' = None" "inflight ?m 0 = Some GetAllData" "nextPromise ?m = 1"
      "calls (requestSettled 0 (Resolved failedResponse) 1000500 ?m) 1 = None"
      "fst (getCachedResponse ''getAllData'' None 1002000
              (requestSettled 0 (Resolved failedResponse) 1000500 ?m)) = None"
    by (simp_all add: manager_eval failedResponse_fields)
  have r: "fst (getCachedResponse ''getAllData'' None 1003000 (run twoEndpointsTrace newApiManager))
             = Some (ApiData okResponse)"
    using twoEndpoints_cache(1) by (simp add: getCachedResponse_def Let_def)
  have c: "cache exampleClient ''all_data'' = None" by (simp add: exampleClient_def)
  have c': "cache (exampleClient\<lparr>cache := [''all_data'' \<mapsto> \<lparr>c_data = [], c_timestamp = 1000120\<rparr>]\<rparr>)
              ''all_data'' = Some \<lparr>c_data = [], c_timestamp = 1000120\<rparr>"
    by simp
  note th1 = C9_getAllData_caches_only_success_amended[where evs = twoEndpointsTrace
        and r = failedResponse and p = 0 and now = 1000500 and cid = 1 and ?t0.0 = 1002000
        and ?t1.0 = 1002000 and ?t2.0 = 1002000 and m = ?m and cid' = 7 and t0' = 1003000
        and d' = "ApiData okResponse" and c = exampleClient and w = startWorld
        and net = headerOnlyNetwork]
  note th2 = C9_getAllData_caches_only_success_amended[where
        c = "exampleClient\<lparr>cache := [''all_data'' \<mapsto> \<lparr>c_data = [], c_timestamp = 1000120\<rparr>]\<rparr>"
        and w = "\<lparr>clock = 1001000, sent = []\<rparr>" and net = headerOnlyNetwork
        and held = "\<lparr>c_data = [], c_timestamp = 1000120\<rparr>"]
  have 1: "calls (step 1003000 (CallGetAllData 7) (run twoEndpointsTrace newApiManager)) 7
       = Some (Returned (ApiData okResponse))"
    using th1 r twoEndpoints_cache(4) by blast
  have 2: "inflight (run [(1002000, CallGetAllData 1), (1002000, TimerFired 1), (1002000, Resume 1)]
                (requestSettled 0 (Resolved failedResponse) 1000500 ?m)) 1 = Some GetAllData"
    using th1 f e by simp
  have 3: "\<exists>rq. sent (snd (snd (sheetApi_getAllData headerOnlyNetwork (exampleClient, startWorld))))
             = sent startWorld @ [rq] \<and> http_method rq = ''GET'' \<and> body rq = None"
    using th1 c by blast
  have 4: "sent (snd (snd (sheetApi_getAllData headerOnlyNetwork
               (exampleClient\<lparr>cache := [''all_data'' \<mapsto> \<lparr>c_data = [], c_timestamp = 1000120\<rparr>]\<rparr>,
                \<lparr>clock = 1001000, sent = []\<rparr>)))) = []"
    using th2 c' by simp
  have 5: "mcache (requestSettled 0 (Resolved failedResponse) 1000500 ?m) ''getAllData'' = None"
    using th1 f e(1) by simp
  show ?thesis
    using twoEndpoints_cache(1) okResponse_fields(1) 1 f e(2) 5 2 4 3 by blast
qed

text \<open>
  Claim C4, as stated: the cache holds at most one entry in every reachable state. After a
  data fetch and a connection test have both completed, the cache holds two entries.
\<close>

theorem C4_two_entries_counterexample:
  "\<not> card (dom (mcache (run twoEndpointsTrace newApiManager))) \<le> 1"
proof -
  have "{''getAllData'', ''quickTest''} \<subseteq> dom (mcache (run twoEndpointsTrace newApiManager))"
    using twoEndpoints_cache(1,2) by (simp add: dom_def)
  moreover have "dom (mcache (run twoEndpointsTrace newApiManager)) \<subseteq> {''getAllData'', ''quickTest''}"
    by (rule run_cache_keys) (simp add: newApiManager_def)
  ultimately have "dom (mcache (run twoEndpointsTrace newApiManager)) = {''getAllData'', ''quickTest''}"
    by (rule subset_antisym[rotated])
  then show ?thesis by simp
qed

text \<open>
  Claim C4, amended. The cache is a TTL map with one slot per cached endpoint: in every state
  reached from a new manager its keys are among \<open>getAllData\<close> and \<open>quickTest\<close>, so it holds at
  most two entries. In any state, a key that holds an entry before a transition and none after
  it was removed by \<open>clearCache\<close>, by \<open>clearCacheEntry\<close> for that key, by the periodic cleanup
  after its TTL had expired, or by the cache read of its own public method after its TTL (ten
  seconds for the connection test) had expired; nothing evicts by size.
\<close>

theorem C4_cache_entries_amended:
  "dom (mcache (run evs newApiManager)) \<subseteq> {''getAllData'', ''quickTest''}
   \<and> card (dom (mcache (run evs newApiManager))) \<le> 2
   \<and> (mcache m k = Some c \<and> mcache (step now e m) k = None \<longrightarrow>
        e = ClearCache \<or> e = ClearCacheEntry k
        \<or> (e = Cleanup \<and> now - cr_timestamp c > cr_ttl c)
        \<or> (\<exists>cid. e = CallGetAllData cid \<and> k = ''getAllData'' \<and> now - cr_timestamp c > cr_ttl c)
        \<or> (\<exists>cid. e = CallQuickConnectionTest cid \<and> k = ''quickTest''
                 \<and> now - cr_timestamp c > 10000))"
proof -
  have s: "dom (mcache (run evs newApiManager)) \<subseteq> {''getAllData'', ''quickTest''}"
    by (rule run_cache_keys) (simp add: newApiManager_def)
  have "card (dom (mcache (run evs newApiManager))) \<le> card {''getAllData'', ''quickTest''}"
    using s by (intro card_mono) simp_all
  then have c: "card (dom (mcache (run evs newApiManager))) \<le> 2" by simp
  show ?thesis
    using s c step_entry_leaves[of m k c now e] by blast
qed

theorem C4_cache_entries_amended_witness:
  "card (dom (mcache (run twoEndpointsTrace newApiManager))) \<le> 2
   \<and> mcache (run twoEndpointsTrace newApiManager) ''quickTest'' \<noteq> None
   \<and> mcache (step 1012101 (CallQuickConnectionTest 7) (run twoEndpointsTrace newApiManager))
        ''quickTest'' = None
   \<and> (1012101::int) - 1002100 > 10000"
proof -
  have a: "mcache (step 1012101 (CallQuickConnectionTest 7) (run twoEndpointsTrace newApiManager))
        ''quickTest'' = None"
    using twoEndpoints_cache(2,4)
    by (simp add: quickConnectionTest_def publicCall_cache getCachedResponse_def Let_def)
  show ?thesis
    using C4_cache_entries_amended[where evs = twoEndpointsTrace
        and m = "run twoEndpointsTrace newApiManager" and k = "''quickTest''"
        and now = 1012101 and e = "CallQuickConnectionTest 7"]
      a twoEndpoints_cache(2)
    by simp
qed

text \<open>
  Claim C3. A new underlying request is never started while one for the same key is pending.
  In \<open>raceTrace\<close> two calls of \<open>getAllData\<close> arrive in the same tick. Both find neither a
  cached response nor a pending request; call 0 starts request 0 and registers it as pending.
  When call 1 resumes a second later, request 0 is still pending and in flight, and call 1
  starts request 1 without looking at the pending map again: two requests for the same key are
  in flight.
\<close>

theorem C3_race_starts_second_request:
  "pendingRequests (run raceTrace newApiManager) ''getAllData''
     = Some \<lparr>promise = 0, pr_timestamp = 1000000\<rparr>
   \<and> inflight (run raceTrace newApiManager) 0 = Some GetAllData
   \<and> nextPromise (run raceTrace newApiManager) = 1
   \<and> calls (run raceTrace newApiManager) 1 = Some (RateLimitPassed GetAllData)
   \<and> inflight (step 1001000 (Resume 1) (run raceTrace newApiManager)) 0 = Some GetAllData
   \<and> inflight (step 1001000 (Resume 1) (run raceTrace newApiManager)) 1 = Some GetAllData
   \<and> nextPromise (step 1001000 (Resume 1) (run raceTrace newApiManager)) = 2
   \<and> pendingRequests (step 1001000 (Resume 1) (run raceTrace newApiManager)) ''getAllData''
     = Some \<lparr>promise = 1, pr_timestamp = 1001000\<rparr>"
  by (simp add: raceTrace_def manager_eval)

text \<open>
  Claim C2, as stated: after an expired read the next call issues a fresh underlying API
  request. In \<open>expiredWhilePendingTrace\<close> the entry stored at 1000500 has expired at 1031000
  while request 1 is pending: call 2 deletes the entry and then awaits request 1, and no new
  request is created. And when two connection tests run eleven seconds apart, the second finds
  the manager's entry (TTL ten seconds) expired and calls \<open>SheetApi.getAllData\<close> again, but the
  client's own cache (TTL thirty seconds) answers: no second request is sent.
\<close>

theorem C2_stale_read_counterexample:
  "mcache (run expiredWhilePendingTrace newApiManager) ''getAllData'' =
       Some \<lparr>cr_data = ApiData okResponse, cr_timestamp = 1000500, cr_ttl = 30000\<rparr>
   \<and> mcache (step 1031000 (CallGetAllData 2) (run expiredWhilePendingTrace newApiManager))
        ''getAllData'' = None
   \<and> calls (step 1031000 (CallGetAllData 2) (run expiredWhilePendingTrace newApiManager)) 2 =
       Some (AwaitingPending GetAllData 1)
   \<and> nextPromise (step 1031000 (CallGetAllData 2) (run expiredWhilePendingTrace newApiManager)) =
       nextPromise (run expiredWhilePendingTrace newApiManager)
   \<and> mcache (fst (atTime 1011000 (completeCall sheetNetwork QuickTest 0
                                  (newApiManager, exampleClient, startWorld)))) ''quickTest''
     = Some \<lparr>cr_data = ConnData \<lparr>connected = True, conn_error = None, rowCount = Some 2\<rparr>,
             cr_timestamp = 1000120, cr_ttl = 10000\<rparr>
   \<and> length (sent (snd (snd (completeCall sheetNetwork QuickTest 0
                                  (newApiManager, exampleClient, startWorld))))) = 1
   \<and> nextPromise (fst (completeCall sheetNetwork QuickTest 1
       (atTime 1011000 (completeCall sheetNetwork QuickTest 0
                          (newApiManager, exampleClient, startWorld))))) = 2
   \<and> sent (snd (snd (completeCall sheetNetwork QuickTest 1
       (atTime 1011000 (completeCall sheetNetwork QuickTest 0
                          (newApiManager, exampleClient, startWorld))))))
     = sent (snd (snd (completeCall sheetNetwork QuickTest 0
                          (newApiManager, exampleClient, startWorld))))"
proof -
  have a: "mcache (run expiredWhilePendingTrace newApiManager) ''getAllData'' =
       Some \<lparr>cr_data = ApiData okResponse, cr_timestamp = 1000500, cr_ttl = 30000\<rparr>
   \<and> mcache (step 1031000 (CallGetAllData 2) (run expiredWhilePendingTrace newApiManager))
        ''getAllData'' = None
   \<and> calls (step 1031000 (CallGetAllData 2) (run expiredWhilePendingTrace newApiManager)) 2 =
       Some (AwaitingPending GetAllData 1)
   \<and> nextPromise (step 1031000 (CallGetAllData 2) (run expiredWhilePendingTrace newApiManager)) =
       nextPromise (run expiredWhilePendingTrace newApiManager)"
    by (simp add: expiredWhilePendingTrace_def manager_eval okResponse_fields)
  show ?thesis
    using a by (simp add: linked_eval manager_eval sheetNetwork_def exampleRows)
qed

text \<open>
  Claim C2, amended. If the manager stored an entry at time \<open>t\<close> with time-to-live \<open>ttl\<close> (the
  custom TTL of the reading method overriding the stored one when the method passes one), a
  read at time \<open>now\<close> returns the stored response exactly when \<open>now - t \<le> ttl\<close>; when
  \<open>now - t > ttl\<close> the entry is deleted and the read returns null. The call of \<open>getAllData\<close> or
  \<open>quickConnectionTest\<close> that made that read then awaits the request pending under its key
  and receives its result, if there is one; otherwise it goes on, once the rate limit lets
  it, to a fresh call of \<open>SheetApi.getAllData\<close>. That call sends a GET only when the client's
  own cache entry is absent or at least 30 seconds old; while it is younger the client answers
  from it without a request.
\<close>

theorem C2_cache_ttl_amended:
  "getCachedResponse key (callerTtl ep) now (setCacheEntry key d ttl t m) =
     (if now - t \<le> (case callerTtl ep of None \<Rightarrow> ttl | Some ct \<Rightarrow> ct)
      then (Some d, setCacheEntry key d ttl t m)
      else (None, clearCacheEntry key (setCacheEntry key d ttl t m)))
   \<and> (mcache s (cacheKey ep) = Some entry
      \<and> now' - cr_timestamp entry > (case callerTtl ep of None \<Rightarrow> cr_ttl entry | Some ct \<Rightarrow> ct)
      \<and> pendingRequests s (cacheKey ep) = None \<and> calls s cid = None
      \<longrightarrow> mcache (run [(now', callEvent ep cid), (t1, TimerFired cid), (t2, Resume cid)] s)
             (cacheKey ep) = None
          \<and> inflight (run [(now', callEvent ep cid), (t1, TimerFired cid), (t2, Resume cid)] s)
             (nextPromise s) = Some ep
          \<and> nextPromise (run [(now', callEvent ep cid), (t1, TimerFired cid), (t2, Resume cid)] s)
             = Suc (nextPromise s)
          \<and> calls (run [(now', callEvent ep cid), (t1, TimerFired cid), (t2, Resume cid)] s) cid
             = Some (AwaitingOwn ep (nextPromise s)))
   \<and> (mcache s (cacheKey ep) = Some entry
      \<and> now' - cr_timestamp entry > (case callerTtl ep of None \<Rightarrow> cr_ttl entry | Some ct \<Rightarrow> ct)
      \<and> pendingRequests s (cacheKey ep) = Some pr \<and> calls s cid = None
      \<longrightarrow> mcache (step now' (callEvent ep cid) s) (cacheKey ep) = None
          \<and> calls (step now' (callEvent ep cid) s) cid = Some (AwaitingPending ep (promise pr))
          \<and> nextPromise (step now' (callEvent ep cid) s) = nextPromise s
          \<and> inflight (step now' (callEvent ep cid) s) = inflight s
          \<and> (inflight s (promise pr) = Some ep' \<longrightarrow>
               calls (step t1 (Settle (promise pr) out) (step now' (callEvent ep cid) s)) cid
                 = Some (promiseResult ep' out)))
   \<and> (cache c ''all_data'' = Some held \<and> clock w - c_timestamp held < 30000
      \<longrightarrow> sent (snd (snd (sheetApi_getAllData net (c, w)))) = sent w)
   \<and> (cache c ''all_data'' = None
        \<or> (\<exists>held. cache c ''all_data'' = Some held \<and> \<not> clock w - c_timestamp held < 30000)
      \<longrightarrow> (\<exists>rq. sent (snd (snd (sheetApi_getAllData net (c, w)))) = sent w @ [rq]
                \<and> http_method rq = ''GET'' \<and> body rq = None))"
proof -
  have r: "getCachedResponse key (callerTtl ep) now (setCacheEntry key d ttl t m) =
     (if now - t \<le> (case callerTtl ep of None \<Rightarrow> ttl | Some ct \<Rightarrow> ct)
      then (Some d, setCacheEntry key d ttl t m)
      else (None, clearCacheEntry key (setCacheEntry key d ttl t m)))"
    using callerTtl_nonzero[of ep] by (rule read_after_store)
  have a: "mcache s (cacheKey ep) = Some entry
      \<and> now' - cr_timestamp entry > (case callerTtl ep of None \<Rightarrow> cr_ttl entry | Some ct \<Rightarrow> ct)
      \<and> pendingRequests s (cacheKey ep) = None \<and> calls s cid = None
      \<longrightarrow> mcache (run [(now', callEvent ep cid), (t1, TimerFired cid), (t2, Resume cid)] s)
             (cacheKey ep) = None
          \<and> inflight (run [(now', callEvent ep cid), (t1, TimerFired cid), (t2, Resume cid)] s)
             (nextPromise s) = Some ep
          \<and> nextPromise (run [(now', callEvent ep cid), (t1, TimerFired cid), (t2, Resume cid)] s)
             = Suc (nextPromise s)
          \<and> calls (run [(now', callEvent ep cid), (t1, TimerFired cid), (t2, Resume cid)] s) cid
             = Some (AwaitingOwn ep (nextPromise s))"
  proof (intro impI, elim conjE)
    assume 1: "mcache s (cacheKey ep) = Some entry"
      and 2: "now' - cr_timestamp entry >
                (case callerTtl ep of None \<Rightarrow> cr_ttl entry | Some ct \<Rightarrow> ct)"
      and 3: "pendingRequests s (cacheKey ep) = None" and 4: "calls s cid = None"
    show "mcache (run [(now', callEvent ep cid), (t1, TimerFired cid), (t2, Resume cid)] s)
             (cacheKey ep) = None
          \<and> inflight (run [(now', callEvent ep cid), (t1, TimerFired cid), (t2, Resume cid)] s)
             (nextPromise s) = Some ep
          \<and> nextPromise (run [(now', callEvent ep cid), (t1, TimerFired cid), (t2, Resume cid)] s)
             = Suc (nextPromise s)
          \<and> calls (run [(now', callEvent ep cid), (t1, TimerFired cid), (t2, Resume cid)] s) cid
             = Some (AwaitingOwn ep (nextPromise s))"
      by (rule miss_creates_request[OF expired_read_miss[OF 1 2] 3 4])
  qed
  have b: "mcache s (cacheKey ep) = Some entry
      \<and> now' - cr_timestamp entry > (case callerTtl ep of None \<Rightarrow> cr_ttl entry | Some ct \<Rightarrow> ct)
      \<and> pendingRequests s (cacheKey ep) = Some pr \<and> calls s cid = None
      \<longrightarrow> mcache (step now' (callEvent ep cid) s) (cacheKey ep) = None
          \<and> calls (step now' (callEvent ep cid) s) cid = Some (AwaitingPending ep (promise pr))
          \<and> nextPromise (step now' (callEvent ep cid) s) = nextPromise s
          \<and> inflight (step now' (callEvent ep cid) s) = inflight s
          \<and> (inflight s (promise pr) = Some ep' \<longrightarrow>
               calls (step t1 (Settle (promise pr) out) (step now' (callEvent ep cid) s)) cid
                 = Some (promiseResult ep' out))"
  proof (intro impI, elim conjE)
    assume 1: "mcache s (cacheKey ep) = Some entry"
      and 2: "now' - cr_timestamp entry >
                (case callerTtl ep of None \<Rightarrow> cr_ttl entry | Some ct \<Rightarrow> ct)"
      and 3: "pendingRequests s (cacheKey ep) = Some pr" and 4: "calls s cid = None"
    show "mcache (step now' (callEvent ep cid) s) (cacheKey ep) = None
          \<and> calls (step now' (callEvent ep cid) s) cid = Some (AwaitingPending ep (promise pr))
          \<and> nextPromise (step now' (callEvent ep cid) s) = nextPromise s
          \<and> inflight (step now' (callEvent ep cid) s) = inflight s
          \<and> (inflight s (promise pr) = Some ep' \<longrightarrow>
               calls (step t1 (Settle (promise pr) out) (step now' (callEvent ep cid) s)) cid
                 = Some (promiseResult ep' out))"
      by (rule miss_awaits_pending[OF expired_read_miss[OF 1 2] 3 4])
  qed
  have k: "cache c ''all_data'' = Some held \<and> clock w - c_timestamp held < 30000
      \<longrightarrow> sent (snd (snd (sheetApi_getAllData net (c, w)))) = sent w"
    using sheetApi_cached[of c held w net] by (intro impI, elim conjE) simp
  have u: "cache c ''all_data'' = None
        \<or> (\<exists>held. cache c ''all_data'' = Some held \<and> \<not> clock w - c_timestamp held < 30000)
      \<longrightarrow> (\<exists>rq. sent (snd (snd (sheetApi_getAllData net (c, w)))) = sent w @ [rq]
                \<and> http_method rq = ''GET'' \<and> body rq = None)"
    by (intro impI) (rule sheetApi_uncached)
  note facts = r a b k u
  show ?thesis
    by (intro conjI) (rule facts)+
qed

theorem C2_cache_ttl_amended_witness:
  "fst (getCachedResponse ''getAllData'' (callerTtl GetAllData) 1030500
         (setCacheEntry ''getAllData'' (ApiData okResponse) 30000 1000500 newApiManager))
     = Some (ApiData okResponse)
   \<and> fst (getCachedResponse ''getAllData'' (callerTtl GetAllData) 1030501
         (setCacheEntry ''getAllData'' (ApiData okResponse) 30000 1000500 newApiManager))
     = None
   \<and> fst (getCachedResponse ''quickTest'' (callerTtl QuickTest) 1010501
         (setCacheEntry ''quickTest'' (ApiData okResponse) 30000 1000500 newApiManager))
     = None
   \<and> mcache (run twoEndpointsTrace newApiManager) (cacheKey GetAllData) =
       Some \<lparr>cr_data = ApiData okResponse, cr_timestamp = 1000500, cr_ttl = 30000\<rparr>
   \<and> inflight (run [(1030501, callEvent GetAllData 7), (1030501, TimerFired 7), (1030501, Resume 7)]
                (run twoEndpointsTrace newApiManager)) 2 = Some GetAllData
   \<and> pendingRequests (run expiredWhilePendingTrace newApiManager) (cacheKey GetAllData)
       = Some \<lparr>promise = 1, pr_timestamp = 1001000\<rparr>
   \<and> calls (step 1031000 (callEvent GetAllData 2) (run expiredWhilePendingTrace newApiManager)) 2
       = Some (AwaitingPending GetAllData 1)
   \<and> calls (step 1032000 (Settle 1 (Resolved okResponse))
              (step 1031000 (callEvent GetAllData 2) (run expiredWhilePendingTrace newApiManager))) 2
       = Some (Returned (ApiData okResponse))
   \<and> (\<exists>rq. sent (snd (snd (sheetApi_getAllData sheetNetwork (exampleClient, startWorld))))
             = sent startWorld @ [rq] \<and> http_method rq = ''GET'' \<and> body rq = None)"
proof -
  let ?e = "\<lparr>cr_data = ApiData okResponse, cr_timestamp = 1000500, cr_ttl = 30000\<rparr>"
  have h: "mcache (run twoEndpointsTrace newApiManager) (cacheKey GetAllData) = Some ?e"
    "pendingRequests (run twoEndpointsTrace newApiManager) (cacheKey GetAllData) = None"
    using twoEndpoints_cache(1,3) by simp_all
  have p: "mcache (run expiredWhilePendingTrace newApiManager) (cacheKey GetAllData) = Some ?e"
    "pendingRequests (run expiredWhilePendingTrace newApiManager) (cacheKey GetAllData)
       = Some \<lparr>promise = 1, pr_timestamp = 1001000\<rparr>"
    "calls (run expiredWhilePendingTrace newApiManager) 2 = None"
    "inflight (run expiredWhilePendingTrace newApiManager) 1 = Some GetAllData"
    by (simp_all add: expiredWhilePendingTrace_def manager_eval okResponse_fields)
  have c: "cache exampleClient ''all_data'' = None" by (simp add: exampleClient_def)
  note th1 = C2_cache_ttl_amended[where key = "''getAllData''" and ep = GetAllData
        and now = 1030500 and d = "ApiData okResponse" and ttl = 30000 and t = 1000500
        and m = newApiManager and s = "run twoEndpointsTrace newApiManager" and entry = ?e
        and now' = 1030501 and cid = 7 and ?t1.0 = 1030501 and ?t2.0 = 1030501
        and c = exampleClient and w = startWorld and net = sheetNetwork]
  note th2 = C2_cache_ttl_amended[where key = "''getAllData''" and ep = GetAllData
        and now = 1030501 and d = "ApiData okResponse" and ttl = 30000 and t = 1000500
        and m = newApiManager and s = "run expiredWhilePendingTrace newApiManager" and entry = ?e
        and now' = 1031000 and cid = 2 and ?t1.0 = 1032000
        and pr = "\<lparr>promise = 1, pr_timestamp = 1001000\<rparr>" and ep' = GetAllData
        and out = "Resolved okResponse"]
  note th3 = C2_cache_ttl_amended[where key = "''quickTest''" and ep = QuickTest
        and now = 1010501 and d = "ApiData okResponse" and ttl = 30000 and t = 1000500
        and m = newApiManager]
  have 1: "fst (getCachedResponse ''getAllData'' (callerTtl GetAllData) 1030500
         (setCacheEntry ''getAllData'' (ApiData okResponse) 30000 1000500 newApiManager))
     = Some (ApiData okResponse)"
    using th1 by simp
  have 2: "fst (getCachedResponse ''getAllData'' (callerTtl GetAllData) 1030501
         (setCacheEntry ''getAllData'' (ApiData okResponse) 30000 1000500 newApiManager)) = None"
    using th2 by simp
  have 3: "fst (getCachedResponse ''quickTest'' (callerTtl QuickTest) 1010501
         (setCacheEntry ''quickTest'' (ApiData okResponse) 30000 1000500 newApiManager)) = None"
    using th3 by simp
  have 4: "inflight (run [(1030501, callEvent GetAllData 7), (1030501, TimerFired 7),
                          (1030501, Resume 7)] (run twoEndpointsTrace newApiManager)) 2
             = Some GetAllData"
    using th1 h twoEndpoints_cache(4,5) by simp
  have 5: "calls (step 1031000 (callEvent GetAllData 2) (run expiredWhilePendingTrace newApiManager)) 2
       = Some (AwaitingPending GetAllData 1)
     \<and> calls (step 1032000 (Settle 1 (Resolved okResponse))
              (step 1031000 (callEvent GetAllData 2) (run expiredWhilePendingTrace newApiManager))) 2
       = Some (Returned (ApiData okResponse))"
    using th2 p by (simp add: promiseResult_def)
  have 6: "\<exists>rq. sent (snd (snd (sheetApi_getAllData sheetNetwork (exampleClient, startWorld))))
             = sent startWorld @ [rq] \<and> http_method rq = ''GET'' \<and> body rq = None"
    using th1 c by blast
  show ?thesis
    using 1 2 3 h(1) 4 p(2) 5 6 by blast
qed

end
